theory Spec2Isabelle
  imports Main "HOL-Library.Sublist" "HOL-Library.List_Lexorder" "HOL-Library.Code_Target_Nat"
begin

section \<open>Python strings and the Unicode database\<close>

text \<open>
  A Python \<open>str\<close> is a sequence of Unicode code points, so it is modelled as a list of
  natural numbers. Comparison of two \<open>str\<close> values is lexicographic on the code points,
  which is the order \<open>HOL-Library.List_Lexorder\<close> puts on lists.
\<close>

type_synonym ustr = "nat list"

definition ascii :: "string \<Rightarrow> ustr" where
  "ascii cs = map of_char cs"

text \<open>
  \<open>str.lower\<close>, \<open>unicodedata.normalize("NFKD", _)\<close> and the regular expression class
  \<open>\d\<close> read the tables of the interpreter's Unicode database. The tables are not part of
  the repository, so every function that reads them takes them as a parameter.
\<close>

record unicodedata =
  str_lower :: "ustr \<Rightarrow> ustr"
  nfkd :: "ustr \<Rightarrow> ustr"
  isdecimal :: "nat \<Rightarrow> bool"

text \<open>
  \<open>str.isspace\<close> and the class \<open>\s\<close> of a \<open>str\<close> pattern: the Unicode white space
  characters. The list is short and fixed, so it is written out.
\<close>

definition isspace :: "nat \<Rightarrow> bool" where
  "isspace c =
     ((9 \<le> c \<and> c \<le> 13) \<or> (28 \<le> c \<and> c \<le> 32) \<or> c = 133 \<or> c = 160 \<or> c = 5760 \<or>
      (8192 \<le> c \<and> c \<le> 8202) \<or> c = 8232 \<or> c = 8233 \<or> c = 8239 \<or> c = 8287 \<or>
      c = 12288)"

text \<open>
  The class \<open>\w\<close> on a code point below 128: a digit, a letter or the underscore. The
  only pattern that uses \<open>\w\<close> runs on a string that was encoded to ASCII just before.
\<close>

definition isword_ascii :: "nat \<Rightarrow> bool" where
  "isword_ascii c =
     ((48 \<le> c \<and> c \<le> 57) \<or> (65 \<le> c \<and> c \<le> 90) \<or> c = 95 \<or> (97 \<le> c \<and> c \<le> 122))"

text \<open>\<open>s.encode("ASCII", "ignore").decode("utf-8")\<close> drops every code point from 128 on.\<close>

definition encode_ascii_ignore :: "ustr \<Rightarrow> ustr" where
  "encode_ascii_ignore s = filter (\<lambda>c. c < 128) s"

text \<open>\<open>s.replace(old, new)\<close> for a single character \<open>old\<close>.\<close>

definition replace_char :: "nat \<Rightarrow> ustr \<Rightarrow> ustr \<Rightarrow> ustr" where
  "replace_char old new s = concat (map (\<lambda>c. if c = old then new else [c]) s)"

text \<open>\<open>re.sub(r"\s+", " ", s)\<close>: every maximal run of white space becomes one space.\<close>

function collapse_spaces :: "ustr \<Rightarrow> ustr" where
  "collapse_spaces [] = []"
| "collapse_spaces (c # cs) =
     (if isspace c then 32 # collapse_spaces (dropWhile isspace cs)
      else c # collapse_spaces cs)"
  by pat_completeness auto
termination
  by (relation "measure length") (auto simp: less_Suc_eq_le length_dropWhile_le)

text \<open>\<open>s.strip()\<close> removes white space at both ends.\<close>

definition strip :: "ustr \<Rightarrow> ustr" where
  "strip s = rev (dropWhile isspace (rev (dropWhile isspace s)))"

section \<open>utils.normalize_name\<close>

definition normalize_name :: "unicodedata \<Rightarrow> ustr \<Rightarrow> ustr" where
  "normalize_name U name0 =
     (let name1 = str_lower U name0;
          name2 = encode_ascii_ignore (nfkd U name1);
          name3 = replace_char 39 [95] (replace_char 34 [95] name2);
          name4 = filter (\<lambda>c. isword_ascii c \<or> isspace c \<or> c = 45 \<or> c = 40 \<or> c = 41) name3;
          name5 = replace_char 95 [32] name4;
          name6 = collapse_spaces name5
      in strip name6)"

text \<open>
  An excerpt of CPython's Unicode database for evaluating the functions on concrete
  strings. It is exact on ASCII (only the letters A to Z have a lower case form, NFKD
  leaves ASCII unchanged, the decimal digits are 0 to 9) and at the listed code points:
  U+00C9 (E with acute) lowers to U+00E9, which decomposes to \<open>e\<close> and the combining
  acute U+0301; the trade mark sign U+2122 has no lower case form and decomposes to
  \<open>TM\<close>; the degree Celsius sign U+2103 has none either and decomposes to U+00B0 and
  \<open>C\<close>. Other code points are left as they are.
\<close>

definition lower_cp :: "nat \<Rightarrow> nat" where
  "lower_cp c = (if 65 \<le> c \<and> c \<le> 90 then c + 32 else if c = 201 then 233 else c)"

definition nfkd_cp :: "nat \<Rightarrow> ustr" where
  "nfkd_cp c =
     (if c = 233 then [101, 769] else if c = 201 then [69, 769]
      else if c = 8482 then [84, 77] else if c = 8451 then [176, 67] else [c])"

definition unicode_excerpt :: unicodedata where
  "unicode_excerpt =
     \<lparr> str_lower = map lower_cp,
       nfkd = (\<lambda>s. concat (map nfkd_cp s)),
       isdecimal = (\<lambda>c. 48 \<le> c \<and> c \<le> 57) \<rparr>"

section \<open>Errors\<close>

text \<open>
  The exceptions of \<open>errors.py\<close> that the modelled functions raise, with the values they
  carry, and Python's own \<open>ZeroDivisionError\<close> and \<open>OSError\<close> (with its text). A raise is
  the \<open>Inl\<close> branch of a result.
  Paths are values of \<open>pathlib.Path\<close>; the type \<open>'p\<close> stands for them.
  \<open>FileParsingError\<close> has a type of its own: it is raised by the file name parser only,
  and caught by the loop that calls the parser. So has \<open>NullValueError\<close>, which only the
  constructors of \<open>Track\<close> and \<open>Playlist\<close> raise.

  The entries of the three lists of a verification report are formatted strings in the
  source. The model keeps the values each string is formatted from: the path and the
  error of a file that did not parse; the position (counted from 1), name and artists of
  a missing track; the position, name, local artists and expected artists of a mismatch.
  In the same way the reason of a parsing error is one of its two messages, and the
  details of a file operation error are either "Source file does not exist" or the
  operation, the destination and the text of the exception that stopped it.
\<close>

datatype parse_reason = ExpectedArtistTrackFormat | EmptyAfterNormalization

datatype op_kind = Move | Copy

datatype 'p failure = SourceDoesNotExist | FailedTo op_kind 'p ustr

datatype 'p file_parsing_error = FileParsingError 'p parse_reason

datatype 'p report_entry =
    ParsingFailure 'p "'p file_parsing_error"
  | MissingTrack int ustr "ustr list"
  | ArtistMismatch int ustr "ustr list" "ustr list"

datatype null_value_error = NullValueError ustr

datatype 'p error =
    FileOperationError ustr 'p "'p failure"
  | PlaylistVerificationError "'p report_entry list" "'p report_entry list" "'p report_entry list"
  | ZeroDivisionError
  | OSError ustr

section \<open>Paths\<close>

text \<open>
  The operations of \<open>pathlib.Path\<close> that the code calls and that do not read the file
  system: \<open>p.name\<close>, \<open>p.suffix\<close>, \<open>p.parent\<close> and \<open>p / segment\<close>.
\<close>

record 'p pathlib =
  path_name :: "'p \<Rightarrow> ustr"
  path_suffix :: "'p \<Rightarrow> ustr"
  path_parent :: "'p \<Rightarrow> 'p"
  path_join :: "'p \<Rightarrow> ustr \<Rightarrow> 'p"

section \<open>utils.extract_artist_and_track\<close>

text \<open>
  \<open>re.sub(r"^\d+\s*[\.\-]\s*", "", name)\<close>: the pattern is anchored at the start, so at
  most one match is removed. A match is one or more decimal digits, any white space, one
  of \<open>.\<close> and \<open>-\<close>, and any white space. Digits, white space and the two punctuation
  characters are disjoint classes, so the greedy scan below finds the match whenever
  there is one.
\<close>

definition strip_number_prefix :: "unicodedata \<Rightarrow> ustr \<Rightarrow> ustr" where
  "strip_number_prefix U name0 =
     (if takeWhile (isdecimal U) name0 = [] then name0
      else case dropWhile isspace (dropWhile (isdecimal U) name0) of
             [] \<Rightarrow> name0
           | c # rest \<Rightarrow> if c = 46 \<or> c = 45 then dropWhile isspace rest else name0)"

text \<open>
  \<open>os.path.splitext\<close> (POSIX): the extension starts at the last dot of the last path
  component, unless that component has only dots before it.
\<close>

definition splitext :: "ustr \<Rightarrow> ustr \<times> ustr" where
  "splitext p =
     (let base = rev (takeWhile (\<lambda>c. c \<noteq> 47) (rev p));
          dir = take (length p - length base) p
      in if 46 \<in> set base then
           (let ext = rev (takeWhile (\<lambda>c. c \<noteq> 46) (rev base));
                root = take (length base - length ext - 1) base
            in if list_ex (\<lambda>c. c \<noteq> 46) root then (dir @ root, 46 # ext) else (p, []))
         else (p, []))"

text \<open>\<open>s.find(sep)\<close> as an option, and \<open>s.split(sep, 1)\<close> for a non-empty \<open>sep\<close>.\<close>

fun find_sub :: "ustr \<Rightarrow> ustr \<Rightarrow> nat option" where
  "find_sub sep [] = (if sep = [] then Some 0 else None)"
| "find_sub sep (c # cs) =
     (if prefix sep (c # cs) then Some 0 else map_option Suc (find_sub sep cs))"

definition split_once :: "ustr \<Rightarrow> ustr \<Rightarrow> ustr list" where
  "split_once sep s =
     (case find_sub sep s of
        None \<Rightarrow> [s]
      | Some i \<Rightarrow> [take i s, drop (i + length sep) s])"

definition extract_artist_and_track ::
  "unicodedata \<Rightarrow> 'p pathlib \<Rightarrow> 'p \<Rightarrow> 'p file_parsing_error + (ustr \<times> ustr)" where
  "extract_artist_and_track U P filepath =
     (let name0 = path_name P filepath;
          name1 = strip_number_prefix U name0;
          name2 = fst (splitext name1);
          parts = split_once (ascii '' - '') name2
      in case parts of
           [p0, p1] \<Rightarrow>
             (let artist = normalize_name U p0;
                  title = normalize_name U p1
              in if artist = [] \<or> title = []
                 then Inl (FileParsingError filepath EmptyAfterNormalization)
                 else Inr (artist, title))
         | _ \<Rightarrow> Inl (FileParsingError filepath ExpectedArtistTrackFormat))"

text \<open>
  A path type for evaluating the functions on concrete inputs: a path is the string of
  its POSIX form. It serves for file names and for paths built by joining segments that
  hold no separator.
\<close>

definition string_paths :: "ustr pathlib" where
  "string_paths =
     \<lparr> path_name = (\<lambda>p. rev (takeWhile (\<lambda>c. c \<noteq> 47) (rev p))),
       path_suffix = (\<lambda>p. snd (splitext (rev (takeWhile (\<lambda>c. c \<noteq> 47) (rev p))))),
       path_parent = (\<lambda>p. rev (drop 1 (dropWhile (\<lambda>c. c \<noteq> 47) (rev p)))),
       path_join = (\<lambda>p s. p @ 47 # s) \<rparr>"

section \<open>tidal\_client.Track\<close>

text \<open>
  What the code reads of the objects of the \<open>tidalapi\<close> library: an artist's name, an
  album's id, name and artist, and a track's album, full name, artists and numbers. A
  field that \<open>check_null\<close> tests may be \<open>None\<close>.
\<close>

record tidal_artist =
  artist_name :: ustr

record tidal_album =
  album_id :: ustr
  album_title :: "ustr option"
  album_main_artist :: "tidal_artist option"

record tidal_track =
  track_album :: "tidal_album option"
  track_full_name :: ustr
  track_artists :: "tidal_artist list"
  tidal_track_num :: int
  tidal_volume_num :: int

definition check_null :: "ustr \<Rightarrow> 'a option \<Rightarrow> null_value_error + 'a" where
  "check_null field v = (case v of None \<Rightarrow> Inl (NullValueError field) | Some x \<Rightarrow> Inr x)"

record Track =
  position :: int
  album :: tidal_album
  album_name :: ustr
  album_artist :: tidal_artist
  name :: ustr
  artists :: "ustr list"
  track_num :: int
  volume_num :: int

definition Track_init :: "int \<Rightarrow> tidal_track \<Rightarrow> null_value_error + Track" where
  "Track_init pos t =
     (case check_null (ascii ''album'') (track_album t) of
        Inl e \<Rightarrow> Inl e
      | Inr alb \<Rightarrow>
     (case check_null
             (ascii ''album_name for '' @
                (case album_title alb of None \<Rightarrow> ascii ''None'' | Some n \<Rightarrow> n))
             (album_title alb) of
        Inl e \<Rightarrow> Inl e
      | Inr alb_name \<Rightarrow>
     (case check_null (ascii ''album_artist for '' @ alb_name) (album_main_artist alb) of
        Inl e \<Rightarrow> Inl e
      | Inr alb_artist \<Rightarrow>
          Inr \<lparr> position = pos, album = alb, album_name = alb_name,
                album_artist = alb_artist, name = track_full_name t,
                artists = map artist_name (track_artists t),
                track_num = tidal_track_num t, volume_num = tidal_volume_num t \<rparr>)))"

definition normalized_name :: "unicodedata \<Rightarrow> Track \<Rightarrow> ustr" where
  "normalized_name U t = normalize_name U (name t)"

definition normalized_artists :: "unicodedata \<Rightarrow> Track \<Rightarrow> ustr list" where
  "normalized_artists U t = map (normalize_name U) (artists t)"

section \<open>tidal\_client.Playlist: the consolidated album artist\<close>

text \<open>
  A \<open>collections.Counter\<close> keeps its keys in the order of their first insertion:
  an association list. \<open>counter[key] += 1\<close> adds one to the key's count, or appends the
  key with the count 1.
\<close>

fun counter_incr :: "(ustr \<times> nat) list \<Rightarrow> ustr \<Rightarrow> (ustr \<times> nat) list" where
  "counter_incr [] a = [(a, 1)]"
| "counter_incr ((b, n) # kvs) a =
     (if a = b then (b, n + 1) # kvs else (b, n) # counter_incr kvs a)"

text \<open>
  \<open>Counter.most_common()\<close> sorts the items by count, largest first; the sort is stable,
  so items of equal count keep their insertion order.
\<close>

definition most_common :: "(ustr \<times> nat) list \<Rightarrow> (ustr \<times> nat) list" where
  "most_common c = sort_key (\<lambda>kv. - int (snd kv)) c"

text \<open>\<open>sep.join(xs)\<close>.\<close>

fun join :: "ustr \<Rightarrow> ustr list \<Rightarrow> ustr" where
  "join sep [] = []"
| "join sep [x] = x"
| "join sep (x # y # ys) = x @ sep @ join sep (y # ys)"

definition get_consolidated_album_artist :: "Track list \<Rightarrow> ustr" where
  "get_consolidated_album_artist trks =
     (if trks = [] then ascii ''Unknown Artist''
      else
        (let artist_counter = foldl counter_incr [] (concat (map artists trks))
         in if artist_counter = [] then artist_name (album_artist (hd trks))
            else
              (let mc = most_common artist_counter;
                   max_count = snd (hd mc);
                   top_artists = map fst (filter (\<lambda>kv. snd kv = max_count) mc)
               in if length top_artists = 1 then hd top_artists
                  else if length top_artists > 2 then ascii ''Various Artists''
                  else join (ascii '' & '') (sort top_artists))))"

text \<open>
  \<open>_build_album_artist_map\<close>: the tracks are grouped by album id, each group in
  playlist order, and every album id is mapped to the consolidated artist of its group.
\<close>

definition group_by_album :: "Track list \<Rightarrow> (ustr \<rightharpoonup> Track list)" where
  "group_by_album trks =
     foldl (\<lambda>m t. m(album_id (album t) \<mapsto>
                      (case m (album_id (album t)) of None \<Rightarrow> [] | Some ts \<Rightarrow> ts) @ [t]))
       Map.empty trks"

definition build_album_artist_map :: "Track list \<Rightarrow> (ustr \<rightharpoonup> ustr)" where
  "build_album_artist_map trks =
     (\<lambda>aid. map_option get_consolidated_album_artist (group_by_album trks aid))"

section \<open>tidal\_client.Playlist\<close>

record tidal_playlist =
  raw_id :: "ustr option"
  raw_name :: "ustr option"
  raw_description :: "ustr option"
  raw_duration :: "int option"
  raw_creator :: "ustr option"
  raw_created :: "int option"
  raw_last_updated :: "int option"
  raw_last_item_added_at :: "int option"
  raw_tracks :: "tidal_track list"

record Playlist =
  playlist_id :: ustr
  playlist_name :: ustr
  description :: ustr
  duration :: int
  creator :: ustr
  created :: int
  last_updated :: int
  last_item_added_at :: int
  tracks :: "Track list"
  album_artist_map :: "ustr \<rightharpoonup> ustr"

text \<open>\<open>[Track(position, track) for position, track in enumerate(raw_tracks)]\<close>\<close>

fun wrap_tracks :: "int \<Rightarrow> tidal_track list \<Rightarrow> null_value_error + Track list" where
  "wrap_tracks i [] = Inr []"
| "wrap_tracks i (t # ts) =
     (case Track_init i t of
        Inl e \<Rightarrow> Inl e
      | Inr trk \<Rightarrow>
          (case wrap_tracks (i + 1) ts of Inl e \<Rightarrow> Inl e | Inr trks \<Rightarrow> Inr (trk # trks)))"

definition Playlist_init :: "tidal_playlist \<Rightarrow> null_value_error + Playlist" where
  "Playlist_init pl =
     (case check_null (ascii ''id'') (raw_id pl) of Inl e \<Rightarrow> Inl e | Inr v_id \<Rightarrow>
     (case check_null (ascii ''name'') (raw_name pl) of Inl e \<Rightarrow> Inl e | Inr v_name \<Rightarrow>
     (case check_null (ascii ''description'') (raw_description pl) of
        Inl e \<Rightarrow> Inl e | Inr v_description \<Rightarrow>
     (case check_null (ascii ''duration'') (raw_duration pl) of
        Inl e \<Rightarrow> Inl e | Inr v_duration \<Rightarrow>
     (case check_null (ascii ''creator'') (raw_creator pl) of
        Inl e \<Rightarrow> Inl e | Inr v_creator \<Rightarrow>
     (case check_null (ascii ''created'') (raw_created pl) of
        Inl e \<Rightarrow> Inl e | Inr v_created \<Rightarrow>
     (case check_null (ascii ''last_updated'') (raw_last_updated pl) of
        Inl e \<Rightarrow> Inl e | Inr v_last_updated \<Rightarrow>
     (case check_null (ascii ''last_item_added_at'') (raw_last_item_added_at pl) of
        Inl e \<Rightarrow> Inl e | Inr v_last_item \<Rightarrow>
     (case wrap_tracks 0 (raw_tracks pl) of
        Inl e \<Rightarrow> Inl e
      | Inr trks \<Rightarrow>
          Inr \<lparr> playlist_id = v_id, playlist_name = v_name, description = v_description,
                duration = v_duration, creator = v_creator, created = v_created,
                last_updated = v_last_updated, last_item_added_at = v_last_item,
                tracks = trks,
                album_artist_map = build_album_artist_map trks \<rparr>)))))))))"

section \<open>tidal\_client.Playlist.verify\_playlist\<close>

record 'p PlaylistMatch =
  track :: Track
  local_file :: 'p
  consolidated_album_artist :: ustr

text \<open>
  The first loop builds \<open>local_track_map\<close>, from a normalized track name to the
  (artist, path) pairs of the files that parse to it, in the order of \<open>local_files\<close>,
  and collects the files that do not parse.
\<close>

type_synonym 'p local_track_map = "ustr \<rightharpoonup> (ustr \<times> 'p) list"

definition index_file ::
  "unicodedata \<Rightarrow> 'p pathlib \<Rightarrow> 'p local_track_map \<times> 'p report_entry list \<Rightarrow> 'p \<Rightarrow>
   'p local_track_map \<times> 'p report_entry list" where
  "index_file U P acc file_path =
     (case extract_artist_and_track U P file_path of
        Inr (artist, title) \<Rightarrow>
          ((fst acc)(title \<mapsto>
              (case fst acc title of None \<Rightarrow> [] | Some es \<Rightarrow> es) @ [(artist, file_path)]),
           snd acc)
      | Inl e \<Rightarrow> (fst acc, snd acc @ [ParsingFailure file_path e]))"

definition index_files ::
  "unicodedata \<Rightarrow> 'p pathlib \<Rightarrow> 'p list \<Rightarrow> 'p local_track_map \<times> 'p report_entry list" where
  "index_files U P local_files = foldl (index_file U P) (Map.empty, []) local_files"

text \<open>
  The two nested loops that look for \<open>matched_file\<close>: for each playlist artist in turn,
  the local entries are scanned in order, and the first entry whose artist is equal ends
  both loops.
\<close>

fun scan_entries :: "ustr \<Rightarrow> (ustr \<times> 'p) list \<Rightarrow> 'p option" where
  "scan_entries playlist_artist [] = None"
| "scan_entries playlist_artist ((local_artist, file_path) # es) =
     (if playlist_artist = local_artist then Some file_path
      else scan_entries playlist_artist es)"

fun find_matched_file :: "ustr list \<Rightarrow> (ustr \<times> 'p) list \<Rightarrow> 'p option" where
  "find_matched_file [] local_entries = None"
| "find_matched_file (playlist_artist # rest) local_entries =
     (case scan_entries playlist_artist local_entries of
        Some file_path \<Rightarrow> Some file_path
      | None \<Rightarrow> find_matched_file rest local_entries)"

record 'p verification =
  artist_mismatches :: "'p report_entry list"
  missing_from_local :: "'p report_entry list"
  matches :: "'p PlaylistMatch list"

text \<open>
  \<open>local_track_map.get(track_name)\<close> followed by \<open>if not local_entries\<close>: an absent name
  and an empty list are treated alike.
\<close>

definition lookup_entries ::
  "unicodedata \<Rightarrow> 'p local_track_map \<Rightarrow> Track \<Rightarrow> (ustr \<times> 'p) list" where
  "lookup_entries U local_map t =
     (case local_map (normalized_name U t) of None \<Rightarrow> [] | Some es \<Rightarrow> es)"

text \<open>\<open>self._album_artist_map.get(track.album.id, track.album_artist.name)\<close>\<close>

definition consolidated_for :: "Playlist \<Rightarrow> Track \<Rightarrow> ustr" where
  "consolidated_for pl t =
     (case album_artist_map pl (album_id (album t)) of
        None \<Rightarrow> artist_name (album_artist t)
      | Some a \<Rightarrow> a)"

text \<open>The body of the loop over the playlist's tracks.\<close>

definition verify_track ::
  "unicodedata \<Rightarrow> Playlist \<Rightarrow> 'p local_track_map \<Rightarrow> 'p verification \<Rightarrow> Track \<Rightarrow>
   'p verification" where
  "verify_track U pl local_map acc t =
     (let local_entries = lookup_entries U local_map t
      in if local_entries = [] then
           acc\<lparr>missing_from_local :=
                 missing_from_local acc @ [MissingTrack (position t + 1) (name t) (artists t)]\<rparr>
         else
           (case find_matched_file (normalized_artists U t) local_entries of
              Some matched_file \<Rightarrow>
                acc\<lparr>matches := matches acc @
                  [\<lparr> track = t, local_file = matched_file,
                     consolidated_album_artist = consolidated_for pl t \<rparr>]\<rparr>
            | None \<Rightarrow>
                acc\<lparr>artist_mismatches := artist_mismatches acc @
                  [ArtistMismatch (position t + 1) (name t) (map fst local_entries)
                     (artists t)]\<rparr>))"

definition verify_tracks ::
  "unicodedata \<Rightarrow> Playlist \<Rightarrow> 'p local_track_map \<Rightarrow> 'p verification" where
  "verify_tracks U pl local_map =
     foldl (verify_track U pl local_map)
       \<lparr> artist_mismatches = [], missing_from_local = [], matches = [] \<rparr> (tracks pl)"

text \<open>
  The summary that is logged before the result is decided divides the number of matches
  by the number of playlist tracks. Of the summary the model keeps this division, which
  raises \<open>ZeroDivisionError\<close> for a playlist without tracks.
\<close>

definition match_rate :: "nat \<Rightarrow> nat \<Rightarrow> 'p error + unit" where
  "match_rate total_local_matches total_playlist_tracks =
     (if total_playlist_tracks = 0 then Inl ZeroDivisionError else Inr ())"

text \<open>
  \<open>verify_playlist\<close>, from the list \<open>local_files\<close> that \<open>collect_audio_files\<close> returned
  for the local folders.
\<close>

definition verify_playlist ::
  "unicodedata \<Rightarrow> 'p pathlib \<Rightarrow> Playlist \<Rightarrow> 'p list \<Rightarrow> 'p error + 'p PlaylistMatch list" where
  "verify_playlist U P pl local_files =
     (let indexed = index_files U P local_files;
          parsing_errors = snd indexed;
          v = verify_tracks U pl (fst indexed)
      in case match_rate (length (matches v)) (length (tracks pl)) of
           Inl e \<Rightarrow> Inl e
         | Inr _ \<Rightarrow>
             if parsing_errors = [] \<and> artist_mismatches v = [] \<and> missing_from_local v = []
             then Inr (matches v)
             else Inl (PlaylistVerificationError parsing_errors (artist_mismatches v)
                         (missing_from_local v)))"

section \<open>utils.sanitize\_filename and the destination path\<close>

definition replacements :: "(nat \<times> ustr) list" where
  "replacements =
     [(58, [45]), (47, [45]), (92, [45]), (60, [40]), (62, [41]), (34, [39]), (124, [45]),
      (63, []), (42, []), (0, [])]"

text \<open>\<open>s.strip(chars)\<close> removes the characters of \<open>chars\<close> at both ends.\<close>

definition strip_chars :: "ustr \<Rightarrow> ustr \<Rightarrow> ustr" where
  "strip_chars chars s =
     rev (dropWhile (\<lambda>c. c \<in> set chars) (rev (dropWhile (\<lambda>c. c \<in> set chars) s)))"

definition sanitize_filename :: "ustr \<Rightarrow> ustr" where
  "sanitize_filename name0 =
     (let sanitized = foldl (\<lambda>acc r. replace_char (fst r) (snd r) acc) name0 replacements;
          stripped = strip_chars (ascii ''. '') sanitized
      in collapse_spaces stripped)"

text \<open>
  The format \<open>{n:02d}\<close>: the decimal digits of \<open>n\<close>, padded with zeros to two characters;
  a minus sign counts as one of the two.
\<close>

fun digits :: "nat \<Rightarrow> ustr" where
  "digits n = (if n < 10 then [48 + n] else digits (n div 10) @ [48 + n mod 10])"

declare digits.simps [simp del]

definition format_02d :: "int \<Rightarrow> ustr" where
  "format_02d n =
     (if n < 0 then 45 # digits (nat (- n))
      else replicate (2 - length (digits (nat n))) 48 @ digits (nat n))"

definition generate_destination_path :: "'p pathlib \<Rightarrow> 'p PlaylistMatch \<Rightarrow> 'p \<Rightarrow> 'p" where
  "generate_destination_path P m base_destination =
     (let file_ext = path_suffix P (local_file m);
          v_album_artist = sanitize_filename (consolidated_album_artist m);
          v_album_name = sanitize_filename (album_name (track m));
          track_name = sanitize_filename (name (track m));
          artists_str = sanitize_filename (join (ascii '', '') (artists (track m)));
          filename = format_02d (track_num (track m)) @ ascii '' - '' @ artists_str @
                     ascii '' - '' @ track_name @ file_ext
      in path_join P (path_join P (path_join P base_destination v_album_artist) v_album_name)
           filename)"

section \<open>tidal\_client.PlaylistMatch.move\_or\_copy\<close>

text \<open>
  The file system is the state. Its operations are those of \<open>pathlib\<close> and \<open>shutil\<close>
  that the code calls. \<open>p.exists()\<close> reads the state: it returns a truth value, or it
  raises \<open>OSError\<close> (for a name that is too long, for one), and then the result is the
  text of the exception. \<open>p.mkdir(parents=True, exist_ok=True)\<close>, \<open>shutil.move\<close> and
  \<open>shutil.copy2\<close> change the state, and return the text of the exception they raised,
  if any, with the state they left. They are not part of the repository and are
  parameters of the model.
\<close>

record ('p, 'fs) filesystem =
  path_exists :: "'fs \<Rightarrow> 'p \<Rightarrow> ustr + bool"
  mkdir_parents :: "'p \<Rightarrow> 'fs \<Rightarrow> ustr option \<times> 'fs"
  shutil_move :: "'p \<Rightarrow> 'p \<Rightarrow> 'fs \<Rightarrow> ustr option \<times> 'fs"
  shutil_copy2 :: "'p \<Rightarrow> 'p \<Rightarrow> 'fs \<Rightarrow> ustr option \<times> 'fs"

text \<open>
  What \<open>move_or_copy\<close> logs, with the values of each message: the skip of an existing
  destination, the operation a dry run would do, and the operation done. Each carries the
  playlist position counted from 1, the source and the destination.
\<close>

datatype 'p log_entry =
    SkippedExisting int 'p 'p
  | WouldDo op_kind int 'p 'p
  | Done op_kind int 'p 'p

definition op_name :: "op_kind \<Rightarrow> ustr" where
  "op_name k = (case k of Move \<Rightarrow> ascii ''move'' | Copy \<Rightarrow> ascii ''copy'')"

text \<open>
  The function returns the exception it raised, if any, and the state it left: the file
  system and the log. Both calls of \<open>exists()\<close> stand outside the \<open>try\<close> block, so an
  \<open>OSError\<close> of theirs leaves the function as it is. The test
  \<open>destination.exists() and not dry_run\<close> calls \<open>exists()\<close> first, in a dry run too.
\<close>

definition move_or_copy ::
  "('p, 'fs) filesystem \<Rightarrow> 'p pathlib \<Rightarrow> 'p PlaylistMatch \<Rightarrow> 'p \<Rightarrow> bool \<Rightarrow> bool \<Rightarrow> bool \<Rightarrow>
   'fs \<times> 'p log_entry list \<Rightarrow> 'p error option \<times> ('fs \<times> 'p log_entry list)" where
  "move_or_copy F P m base_destination copy move dry_run st =
     (if \<not> copy \<and> \<not> move then (None, st)
      else
        (case path_exists F (fst st) (local_file m) of
           Inl exn \<Rightarrow> (Some (OSError exn), st)
         | Inr source_exists \<Rightarrow>
             if \<not> source_exists then
               (Some (FileOperationError (ascii ''validate source'') (local_file m)
                        SourceDoesNotExist),
                st)
             else
               (let destination = generate_destination_path P m base_destination;
                    kind = (if move then Move else Copy);
                    pos = position (track m) + 1
                in case path_exists F (fst st) destination of
                     Inl exn \<Rightarrow> (Some (OSError exn), st)
                   | Inr destination_exists \<Rightarrow>
                       if destination_exists \<and> \<not> dry_run then
                         (None,
                          (fst st, snd st @ [SkippedExisting pos (local_file m) destination]))
                       else if dry_run then
                         (None, (fst st, snd st @ [WouldDo kind pos (local_file m) destination]))
                       else
                         (case mkdir_parents F (path_parent P destination) (fst st) of
                            (Some exn, fs1) \<Rightarrow>
                              (Some (FileOperationError (op_name kind) (local_file m)
                                       (FailedTo kind destination exn)),
                               (fs1, snd st))
                          | (None, fs1) \<Rightarrow>
                              (case (if move
                                     then shutil_move F (local_file m) destination fs1
                                     else shutil_copy2 F (local_file m) destination fs1) of
                                 (Some exn, fs2) \<Rightarrow>
                                   (Some (FileOperationError (op_name kind) (local_file m)
                                            (FailedTo kind destination exn)),
                                    (fs2, snd st))
                               | (None, fs2) \<Rightarrow>
                                   (None,
                                    (fs2,
                                     snd st @ [Done kind pos (local_file m) destination])))))))"

section \<open>tidal\_client.Playlist.move\_or\_copy\<close>

text \<open>The loop over the matches stops at the first exception.\<close>

fun execute_matches ::
  "('p, 'fs) filesystem \<Rightarrow> 'p pathlib \<Rightarrow> 'p \<Rightarrow> bool \<Rightarrow> bool \<Rightarrow> bool \<Rightarrow> 'p PlaylistMatch list \<Rightarrow>
   'fs \<times> 'p log_entry list \<Rightarrow> 'p error option \<times> ('fs \<times> 'p log_entry list)" where
  "execute_matches F P destination copy move dry_run [] st = (None, st)"
| "execute_matches F P destination copy move dry_run (m # ms) st =
     (case move_or_copy F P m destination copy move dry_run st of
        (Some e, st') \<Rightarrow> (Some e, st')
      | (None, st') \<Rightarrow> execute_matches F P destination copy move dry_run ms st')"

definition Playlist_move_or_copy ::
  "unicodedata \<Rightarrow> ('p, 'fs) filesystem \<Rightarrow> 'p pathlib \<Rightarrow> Playlist \<Rightarrow> 'p list \<Rightarrow> 'p \<Rightarrow> bool \<Rightarrow> bool \<Rightarrow>
   bool \<Rightarrow> 'fs \<times> 'p log_entry list \<Rightarrow> 'p error option \<times> ('fs \<times> 'p log_entry list)" where
  "Playlist_move_or_copy U F P pl local_files destination copy move dry_run st =
     (case verify_playlist U P pl local_files of
        Inl e \<Rightarrow> (Some e, st)
      | Inr ms \<Rightarrow> execute_matches F P destination copy move dry_run ms st)"

text \<open>
  A file system for evaluating the functions on concrete inputs: the state is the list of
  the paths that exist; creating directories and copying add a path, moving also removes
  the source; no operation fails.
\<close>

definition listed_files :: "(ustr, ustr list) filesystem" where
  "listed_files =
     \<lparr> path_exists = (\<lambda>fs p. Inr (p \<in> set fs)),
       mkdir_parents = (\<lambda>p fs. (None, p # fs)),
       shutil_move = (\<lambda>src dst fs. (None, dst # removeAll src fs)),
       shutil_copy2 = (\<lambda>src dst fs. (None, dst # fs)) \<rparr>"

text \<open>
  The same file system with a limit on the length of a path, small to keep the inputs
  small: \<open>exists()\<close> raises for a path of more than 20 characters.
\<close>

definition limited_files :: "(ustr, ustr list) filesystem" where
  "limited_files =
     \<lparr> path_exists =
         (\<lambda>fs p. if 20 < length p then Inl (ascii ''File name too long'')
                 else Inr (p \<in> set fs)),
       mkdir_parents = (\<lambda>p fs. (None, p # fs)),
       shutil_move = (\<lambda>src dst fs. (None, dst # removeAll src fs)),
       shutil_copy2 = (\<lambda>src dst fs. (None, dst # fs)) \<rparr>"

section \<open>Concrete inputs\<close>

text \<open>
  A small album and playlist for evaluating the functions: every track is on the album
  "Alb1" of artist "X"; a track is given by its position, title and artists.
\<close>

definition sample_album :: tidal_album where
  "sample_album =
     \<lparr> album_id = ascii ''7'', album_title = Some (ascii ''Alb1''),
       album_main_artist = Some \<lparr> artist_name = ascii ''X'' \<rparr> \<rparr>"

definition sample_raw_track :: "string \<Rightarrow> string list \<Rightarrow> tidal_track" where
  "sample_raw_track title as =
     \<lparr> track_album = Some sample_album, track_full_name = ascii title,
       track_artists = map (\<lambda>a. \<lparr> artist_name = ascii a \<rparr>) as,
       tidal_track_num = 3, tidal_volume_num = 1 \<rparr>"

definition sample_raw_playlist :: "tidal_track list \<Rightarrow> tidal_playlist" where
  "sample_raw_playlist ts =
     \<lparr> raw_id = Some (ascii ''p1''), raw_name = Some (ascii ''Mix''),
       raw_description = Some [], raw_duration = Some 600, raw_creator = Some (ascii ''me''),
       raw_created = Some 0, raw_last_updated = Some 0, raw_last_item_added_at = Some 0,
       raw_tracks = ts \<rparr>"

definition sample_track :: "int \<Rightarrow> string \<Rightarrow> string list \<Rightarrow> Track" where
  "sample_track pos title as =
     \<lparr> position = pos, album = sample_album, album_name = ascii ''Alb1'',
       album_artist = \<lparr> artist_name = ascii ''X'' \<rparr>, name = ascii title,
       artists = map ascii as, track_num = 3, volume_num = 1 \<rparr>"

definition sample_playlist :: "Track list \<Rightarrow> Playlist" where
  "sample_playlist ts =
     \<lparr> playlist_id = ascii ''p1'', playlist_name = ascii ''Mix'', description = [],
       duration = 600, creator = ascii ''me'', created = 0, last_updated = 0,
       last_item_added_at = 0, tracks = ts,
       album_artist_map = build_album_artist_map ts \<rparr>"

definition sample_match :: "ustr PlaylistMatch" where
  "sample_match =
     \<lparr> track = sample_track 0 ''Song A'' [''X'', ''Y''],
       local_file = ascii ''in/X - Song A.mp3'', consolidated_album_artist = ascii ''X'' \<rparr>"

definition sample_destination :: ustr where
  "sample_destination = ascii ''out/X/Alb1/03 - X, Y - Song A.mp3''"

section \<open>The two readings of the matching rule\<close>

text \<open>
  The rule as the specification words it: the first candidate, in scan order, whose
  artist is equal to any of the track's artists.
\<close>

definition first_candidate_matching_any_artist ::
  "ustr list \<Rightarrow> (ustr \<times> 'p) list \<Rightarrow> 'p option" where
  "first_candidate_matching_any_artist playlist_artists local_entries =
     map_option snd (find (\<lambda>e. fst e \<in> set playlist_artists) local_entries)"

text \<open>
  The rule with the artist list taken in order: the first of the track's artists that
  some candidate has, and for it the first candidate, in scan order, with that artist.
\<close>

definition first_candidate_of_first_matching_artist ::
  "ustr list \<Rightarrow> (ustr \<times> 'p) list \<Rightarrow> 'p option" where
  "first_candidate_of_first_matching_artist playlist_artists local_entries =
     (case filter (\<lambda>a. a \<in> fst ` set local_entries) playlist_artists of
        [] \<Rightarrow> None
      | a # _ \<Rightarrow> map_option snd (find (\<lambda>e. fst e = a) local_entries))"

text \<open>Two local files of the same title by different artists, in scan order.\<close>

definition sample_files :: "ustr list" where
  "sample_files = [ascii ''B - S.mp3'', ascii ''A - S.mp3'']"


text \<open>
  A track is matched when the two loops find a file for it among its local entries.
\<close>

definition matched :: "unicodedata \<Rightarrow> 'p local_track_map \<Rightarrow> Track \<Rightarrow> bool" where
  "matched U lm t = (find_matched_file (normalized_artists U t) (lookup_entries U lm t) \<noteq> None)"

text \<open>
  Concrete playlists over the sample album: one track "S" by the artists A and B, in
  both orders of the artist list, with the match each gets from \<open>sample_files\<close>; and the
  track "S" by A twice.
\<close>

definition track_ab :: Track where
  "track_ab = sample_track 0 ''S'' [''A'', ''B'']"

definition track_ba :: Track where
  "track_ba = sample_track 0 ''S'' [''B'', ''A'']"

definition match_ab :: "ustr PlaylistMatch" where
  "match_ab =
     \<lparr> track = track_ab, local_file = ascii ''A - S.mp3'',
       consolidated_album_artist = ascii ''A & B'' \<rparr>"

definition raw_playlist_ab :: tidal_playlist where
  "raw_playlist_ab = sample_raw_playlist [sample_raw_track ''S'' [''A'', ''B'']]"









section \<open>The consolidator's specification\<close>

text \<open>
  The specification's words for the consolidator: the number of occurrences of an artist
  over the artist lists of the album's tracks, and the artists that attain the highest
  number.
\<close>

definition occurrences :: "Track list \<Rightarrow> ustr \<Rightarrow> nat" where
  "occurrences trks a = count_list (concat (map artists trks)) a"

definition most_frequent :: "Track list \<Rightarrow> ustr set" where
  "most_frequent trks =
     {a \<in> set (concat (map artists trks)).
        \<forall>b \<in> set (concat (map artists trks)). occurrences trks b \<le> occurrences trks a}"

text \<open>
  The invariant of the counting loop: the counter has each artist of the list once, with
  the number of its occurrences.
\<close>

definition counts_of :: "ustr list \<Rightarrow> (ustr \<times> nat) list \<Rightarrow> bool" where
  "counts_of xs c \<longleftrightarrow>
     distinct (map fst c) \<and> fst ` set c = set xs \<and> (\<forall>kv \<in> set c. snd kv = count_list xs (fst kv))"

text \<open>The list \<open>top_artists\<close> that \<open>_get_consolidated_album_artist\<close> computes.\<close>

definition top_artists :: "Track list \<Rightarrow> ustr list" where
  "top_artists trks =
     (let mc = most_common (foldl counter_incr [] (concat (map artists trks)))
      in map fst (filter (\<lambda>kv. snd kv = snd (hd mc)) mc))"

text \<open>
  The album of the specification's scenario: X on two of the three tracks, Y and Z on one
  each.
\<close>

definition album_tracks_xyz :: "Track list" where
  "album_tracks_xyz =
     [sample_track 0 ''Song A'' [''X''], sample_track 1 ''Song B'' [''X'', ''Y''],
      sample_track 2 ''Song C'' [''Z'']]"

section \<open>The file name round trip\<close>

text \<open>The file name built from an artist and a track title.\<close>

definition file_name :: "ustr \<Rightarrow> ustr \<Rightarrow> ustr" where
  "file_name artist title = artist @ ascii '' - '' @ title @ ascii ''.mp3''"

text \<open>
  The premises of the round trip as the specification words them: neither string
  contains " - ", and both are non-empty after normalization.
\<close>

definition round_trip_premises :: "unicodedata \<Rightarrow> ustr \<Rightarrow> ustr \<Rightarrow> bool" where
  "round_trip_premises U artist title =
     (\<not> sublist (ascii '' - '') artist \<and> \<not> sublist (ascii '' - '') title \<and>
      normalize_name U artist \<noteq> [] \<and> normalize_name U title \<noteq> [])"

text \<open>
  A string begins with a numeric prefix when the pattern of \<open>strip_number_prefix\<close>
  matches: decimal digits, then any white space, then \<open>.\<close> or \<open>-\<close>.
\<close>

definition has_number_prefix :: "unicodedata \<Rightarrow> ustr \<Rightarrow> bool" where
  "has_number_prefix U s =
     (takeWhile (isdecimal U) s \<noteq> [] \<and>
      (case dropWhile isspace (dropWhile (isdecimal U) s) of
         [] \<Rightarrow> False
       | c # _ \<Rightarrow> c = 46 \<or> c = 45))"

section \<open>The plan executor\<close>

lemma sample_destination_eq:
  "generate_destination_path string_paths sample_match (ascii ''out'') = sample_destination"
  by code_simp

lemma move_or_copy_existing:
  assumes "copy \<or> move"
    and "path_exists F fs (local_file m) = Inr True"
    and "path_exists F fs (generate_destination_path P m base) = Inr True"
  shows "move_or_copy F P m base copy move False (fs, lg) =
           (None, (fs, lg @ [SkippedExisting (position (track m) + 1) (local_file m)
                               (generate_destination_path P m base)]))"
  using assms by (auto simp: move_or_copy_def Let_def)

lemma execute_matches_existing:
  assumes "copy \<or> move"
    and "list_all (\<lambda>m. path_exists F fs (local_file m) = Inr True \<and>
                         path_exists F fs (generate_destination_path P m base) = Inr True) ms"
  shows "execute_matches F P base copy move False ms (fs, lg) =
           (None, (fs, lg @ map (\<lambda>m. SkippedExisting (position (track m) + 1) (local_file m)
                                     (generate_destination_path P m base)) ms))"
  using assms(2)
proof (induction ms arbitrary: lg)
  case Nil
  then show ?case by simp
next
  case (Cons m ms)
  from Cons.prems have here: "path_exists F fs (local_file m) = Inr True"
      "path_exists F fs (generate_destination_path P m base) = Inr True"
    and rest: "list_all (\<lambda>m. path_exists F fs (local_file m) = Inr True \<and>
                         path_exists F fs (generate_destination_path P m base) = Inr True) ms"
    by simp_all
  show ?case
    by (simp add: move_or_copy_existing [OF assms(1) here] Cons.IH [OF rest])
qed

lemma move_or_copy_dry_run:
  assumes "copy \<or> move"
  shows "move_or_copy F P m base copy move True (fs, lg) =
           (case path_exists F fs (local_file m) of
              Inl exn \<Rightarrow> (Some (OSError exn), (fs, lg))
            | Inr source_exists \<Rightarrow>
                if \<not> source_exists then
                  (Some (FileOperationError (ascii ''validate source'') (local_file m)
                           SourceDoesNotExist), (fs, lg))
                else
                  (case path_exists F fs (generate_destination_path P m base) of
                     Inl exn \<Rightarrow> (Some (OSError exn), (fs, lg))
                   | Inr destination_exists \<Rightarrow>
                       (None, (fs, lg @ [WouldDo (if move then Move else Copy)
                                           (position (track m) + 1) (local_file m)
                                           (generate_destination_path P m base)]))))"
  using assms by (auto simp: move_or_copy_def Let_def split: sum.splits)

lemma sample_match_fields:
  "position (track sample_match) + 1 = 1"
  "local_file sample_match = ascii ''in/X - Song A.mp3''"
  by (simp_all add: sample_match_def sample_track_def)

lemma sample_match_source_exists:
  "path_exists listed_files (ascii ''in/X - Song A.mp3'' # fs) (local_file sample_match) =
     Inr True"
  by (simp add: listed_files_def sample_match_def)

lemma sample_match_destination_exists:
  "path_exists listed_files [ascii ''in/X - Song A.mp3'', sample_destination]
     (generate_destination_path string_paths sample_match (ascii ''out'')) = Inr True"
  by (simp add: sample_destination_eq listed_files_def)

lemma sample_match_destination_absent:
  "path_exists listed_files [ascii ''in/X - Song A.mp3'']
     (generate_destination_path string_paths sample_match (ascii ''out'')) = Inr False"
  unfolding sample_destination_eq by code_simp

lemma sample_match_limited:
  "path_exists limited_files [ascii ''in/X - Song A.mp3''] (local_file sample_match) = Inr True"
  "path_exists limited_files [ascii ''in/X - Song A.mp3'']
     (generate_destination_path string_paths sample_match (ascii ''out'')) =
     Inl (ascii ''File name too long'')"
  "path_exists limited_files [] (local_file sample_match) = Inr False"
  unfolding sample_destination_eq by code_simp+

text \<open>
  C7. In a real run (no dry run) in copy or move mode, a match whose source exists and
  whose destination path exists already (both calls of \<open>exists()\<close> return true) is
  skipped: \<open>move_or_copy\<close> raises nothing, returns the file system it was given, whatever
  the operations of the file system are, and logs the skip. So a run of the executor over
  matches whose destinations all exist returns the file system unchanged and logs one
  skip per match.
\<close>

theorem move_or_copy_skips_existing_destination:
  assumes "copy \<or> move"
  shows "(path_exists F fs (local_file m) = Inr True \<and>
          path_exists F fs (generate_destination_path P m base) = Inr True \<longrightarrow>
            move_or_copy F P m base copy move False (fs, lg) =
              (None, (fs, lg @ [SkippedExisting (position (track m) + 1) (local_file m)
                                  (generate_destination_path P m base)]))) \<and>
         (list_all (\<lambda>m. path_exists F fs (local_file m) = Inr True \<and>
                         path_exists F fs (generate_destination_path P m base) = Inr True)
            ms \<longrightarrow>
            execute_matches F P base copy move False ms (fs, lg) =
              (None, (fs, lg @ map (\<lambda>m. SkippedExisting (position (track m) + 1)
                                          (local_file m)
                                          (generate_destination_path P m base)) ms)))"
proof (intro conjI impI)
  assume h: "path_exists F fs (local_file m) = Inr True \<and>
             path_exists F fs (generate_destination_path P m base) = Inr True"
  show "move_or_copy F P m base copy move False (fs, lg) =
              (None, (fs, lg @ [SkippedExisting (position (track m) + 1) (local_file m)
                                  (generate_destination_path P m base)]))"
    by (rule move_or_copy_existing [OF assms conjunct1 [OF h] conjunct2 [OF h]])
next
  assume "list_all (\<lambda>m. path_exists F fs (local_file m) = Inr True \<and>
                         path_exists F fs (generate_destination_path P m base) = Inr True) ms"
  then show "execute_matches F P base copy move False ms (fs, lg) =
              (None, (fs, lg @ map (\<lambda>m. SkippedExisting (position (track m) + 1)
                                          (local_file m)
                                          (generate_destination_path P m base)) ms))"
    by (rule execute_matches_existing [OF assms])
qed

theorem move_or_copy_skips_existing_destination_witness:
  "move_or_copy listed_files string_paths sample_match (ascii ''out'') True False False
     ([ascii ''in/X - Song A.mp3'', sample_destination], []) =
     (None, ([ascii ''in/X - Song A.mp3'', sample_destination],
             [SkippedExisting 1 (ascii ''in/X - Song A.mp3'') sample_destination])) \<and>
   execute_matches listed_files string_paths (ascii ''out'') False True False
     [sample_match, sample_match]
     ([ascii ''in/X - Song A.mp3'', sample_destination], []) =
     (None, ([ascii ''in/X - Song A.mp3'', sample_destination],
             [SkippedExisting 1 (ascii ''in/X - Song A.mp3'') sample_destination,
              SkippedExisting 1 (ascii ''in/X - Song A.mp3'') sample_destination]))"
proof -
  let ?fs = "[ascii ''in/X - Song A.mp3'', sample_destination]"
  let ?dest = "generate_destination_path string_paths sample_match (ascii ''out'')"
  let ?skip = "\<lambda>m. SkippedExisting (position (track m) + 1) (local_file m)
                      (generate_destination_path string_paths m (ascii ''out''))"
  have src: "path_exists listed_files ?fs (local_file sample_match) = Inr True"
    by (rule sample_match_source_exists)
  have dst: "path_exists listed_files ?fs ?dest = Inr True"
    by (rule sample_match_destination_exists)
  have both: "list_all (\<lambda>m. path_exists listed_files ?fs (local_file m) = Inr True \<and>
                path_exists listed_files ?fs
                  (generate_destination_path string_paths m (ascii ''out'')) = Inr True)
              [sample_match, sample_match]"
    using src dst by simp
  have one: "True \<or> False" and two: "False \<or> True" by simp_all
  have e1: "move_or_copy listed_files string_paths sample_match (ascii ''out'') True False
              False (?fs, []) = (None, (?fs, [] @ [?skip sample_match]))"
    using move_or_copy_skips_existing_destination [OF one, of listed_files ?fs sample_match
            string_paths "ascii ''out''" "[]" "[]"] src dst
    by blast
  have e2: "execute_matches listed_files string_paths (ascii ''out'') False True False
              [sample_match, sample_match] (?fs, []) =
              (None, (?fs, [] @ map ?skip [sample_match, sample_match]))"
    using move_or_copy_skips_existing_destination [OF two, of listed_files ?fs sample_match
            string_paths "ascii ''out''" "[]" "[sample_match, sample_match]"] both
    by blast
  show ?thesis
    unfolding e1 e2 by (simp add: sample_match_fields sample_destination_eq)
qed

text \<open>
  C8, as the code has it. In a dry run in copy or move mode, \<open>move_or_copy\<close> makes both
  checks and never changes the file system: it returns the file system it was given in
  every case. It calls \<open>exists()\<close> on the source: an \<open>OSError\<close> of the call is raised, and
  a source that does not exist raises the operation error. It then calls \<open>exists()\<close> on
  the resolved destination: an \<open>OSError\<close> of the call is raised. When the call returns,
  whatever it returns, the function logs the operation it would do (move if \<open>move\<close> is
  set, else copy) with the resolved destination path: a dry run never reports a skip.
\<close>

theorem dry_run_reports_operation:
  assumes "copy \<or> move"
  shows "move_or_copy F P m base copy move True (fs, lg) =
           (case path_exists F fs (local_file m) of
              Inl exn \<Rightarrow> (Some (OSError exn), (fs, lg))
            | Inr source_exists \<Rightarrow>
                if \<not> source_exists then
                  (Some (FileOperationError (ascii ''validate source'') (local_file m)
                           SourceDoesNotExist), (fs, lg))
                else
                  (case path_exists F fs (generate_destination_path P m base) of
                     Inl exn \<Rightarrow> (Some (OSError exn), (fs, lg))
                   | Inr destination_exists \<Rightarrow>
                       (None, (fs, lg @ [WouldDo (if move then Move else Copy)
                                           (position (track m) + 1) (local_file m)
                                           (generate_destination_path P m base)]))))"
  by (rule move_or_copy_dry_run [OF assms])

theorem dry_run_reports_operation_witness:
  "move_or_copy listed_files string_paths sample_match (ascii ''out'') False True True
     ([ascii ''in/X - Song A.mp3''], []) =
     (None, ([ascii ''in/X - Song A.mp3''],
             [WouldDo Move 1 (ascii ''in/X - Song A.mp3'') sample_destination])) \<and>
   move_or_copy listed_files string_paths sample_match (ascii ''out'') True False True
     ([ascii ''in/X - Song A.mp3'', sample_destination], []) =
     (None, ([ascii ''in/X - Song A.mp3'', sample_destination],
             [WouldDo Copy 1 (ascii ''in/X - Song A.mp3'') sample_destination])) \<and>
   move_or_copy limited_files string_paths sample_match (ascii ''out'') True False True
     ([ascii ''in/X - Song A.mp3''], []) =
     (Some (OSError (ascii ''File name too long'')), ([ascii ''in/X - Song A.mp3''], [])) \<and>
   move_or_copy limited_files string_paths sample_match (ascii ''out'') True False True
     ([], []) =
     (Some (FileOperationError (ascii ''validate source'') (ascii ''in/X - Song A.mp3'')
              SourceDoesNotExist), ([], []))"
proof -
  have one: "True \<or> False" and two: "False \<or> True" by simp_all
  have a: "move_or_copy listed_files string_paths sample_match (ascii ''out'') False True True
             ([ascii ''in/X - Song A.mp3''], []) =
           (None, ([ascii ''in/X - Song A.mp3''],
                   [WouldDo Move 1 (ascii ''in/X - Song A.mp3'') sample_destination]))"
    unfolding dry_run_reports_operation [OF two]
              sample_match_source_exists sample_match_destination_absent
    by (simp add: sample_match_fields sample_destination_eq)
  have b: "move_or_copy listed_files string_paths sample_match (ascii ''out'') True False True
             ([ascii ''in/X - Song A.mp3'', sample_destination], []) =
           (None, ([ascii ''in/X - Song A.mp3'', sample_destination],
                   [WouldDo Copy 1 (ascii ''in/X - Song A.mp3'') sample_destination]))"
    unfolding dry_run_reports_operation [OF one]
              sample_match_source_exists sample_match_destination_exists
    by (simp add: sample_match_fields sample_destination_eq)
  have c: "move_or_copy limited_files string_paths sample_match (ascii ''out'') True False True
             ([ascii ''in/X - Song A.mp3''], []) =
           (Some (OSError (ascii ''File name too long'')), ([ascii ''in/X - Song A.mp3''], []))"
    unfolding dry_run_reports_operation [OF one] sample_match_limited
    by simp
  have d: "move_or_copy limited_files string_paths sample_match (ascii ''out'') True False True
             ([], []) =
           (Some (FileOperationError (ascii ''validate source'') (ascii ''in/X - Song A.mp3'')
                    SourceDoesNotExist), ([], []))"
    unfolding dry_run_reports_operation [OF one] sample_match_limited
    by (simp add: sample_match_fields)
  show ?thesis using a b c d by (simp only: simp_thms)
qed

text \<open>
  The claim C8 as stated fails where the destination exists: the real run skips the
  match, the dry run reports a copy.
\<close>

theorem dry_run_skip_counterexample:
  "path_exists listed_files [ascii ''in/X - Song A.mp3'', sample_destination]
     (generate_destination_path string_paths sample_match (ascii ''out'')) = Inr True \<and>
   snd (snd (move_or_copy listed_files string_paths sample_match (ascii ''out'') True False
               False ([ascii ''in/X - Song A.mp3'', sample_destination], []))) =
     [SkippedExisting 1 (ascii ''in/X - Song A.mp3'') sample_destination] \<and>
   snd (snd (move_or_copy listed_files string_paths sample_match (ascii ''out'') True False
               True ([ascii ''in/X - Song A.mp3'', sample_destination], []))) =
     [WouldDo Copy 1 (ascii ''in/X - Song A.mp3'') sample_destination]"
proof -
  have one: "True \<or> False" by simp
  show ?thesis
    unfolding move_or_copy_existing [OF one sample_match_source_exists
                sample_match_destination_exists]
              move_or_copy_dry_run [OF one]
              sample_match_source_exists sample_match_destination_exists
    by (simp add: sample_match_fields sample_destination_eq)
qed

text \<open>
  C10. With neither \<open>copy\<close> nor \<open>move\<close> set, \<open>move_or_copy\<close> returns at once: it raises
  nothing and returns the state it was given, whether or not the source exists and
  whether or not \<open>dry_run\<close> is set. No operation of the file system is called.
\<close>

theorem move_or_copy_no_mode_returns:
  "move_or_copy F P m base False False dry_run st = (None, st)"
  by (simp add: move_or_copy_def)

section \<open>Reconciliation\<close>


lemma scan_entries_find:
  "scan_entries a es = map_option snd (find (\<lambda>e. fst e = a) es)"
  by (induction a es rule: scan_entries.induct) auto

lemma scan_entries_None_iff:
  "scan_entries a es = None \<longleftrightarrow> a \<notin> fst ` set es"
  by (induction a es rule: scan_entries.induct) force+

lemma find_matched_file_Nil [simp]: "find_matched_file as [] = None"
  by (induction as) simp_all

lemma find_matched_file_rule:
  "find_matched_file as es = first_candidate_of_first_matching_artist as es"
proof (induction as)
  case Nil
  then show ?case by (simp add: first_candidate_of_first_matching_artist_def)
next
  case (Cons a as)
  show ?case
  proof (cases "a \<in> fst ` set es")
    case True
    then obtain f where "scan_entries a es = Some f"
      using scan_entries_None_iff [of a es] by (cases "scan_entries a es") auto
    with True show ?thesis
      by (simp add: first_candidate_of_first_matching_artist_def scan_entries_find [symmetric])
  next
    case False
    then have "scan_entries a es = None" by (simp add: scan_entries_None_iff)
    with False Cons.IH show ?thesis
      by (simp add: first_candidate_of_first_matching_artist_def)
  qed
qed

lemma verify_track_cases:
  "verify_track U pl lm acc t =
     (case find_matched_file (normalized_artists U t) (lookup_entries U lm t) of
        Some f \<Rightarrow>
          acc\<lparr>matches := matches acc @
            [\<lparr> track = t, local_file = f, consolidated_album_artist = consolidated_for pl t \<rparr>]\<rparr>
      | None \<Rightarrow>
          if lookup_entries U lm t = [] then
            acc\<lparr>missing_from_local :=
                  missing_from_local acc @ [MissingTrack (position t + 1) (name t) (artists t)]\<rparr>
          else
            acc\<lparr>artist_mismatches := artist_mismatches acc @
                  [ArtistMismatch (position t + 1) (name t) (map fst (lookup_entries U lm t))
                     (artists t)]\<rparr>)"
  by (simp add: verify_track_def Let_def split: option.splits)

lemma foldl_verify_track_matches:
  "map track (matches (foldl (verify_track U pl lm) acc ts)) =
     map track (matches acc) @ filter (matched U lm) ts"
  by (induction ts arbitrary: acc)
     (auto simp: verify_track_cases matched_def split: option.splits)

lemma foldl_verify_track_failures:
  "length (artist_mismatches (foldl (verify_track U pl lm) acc ts)) +
   length (missing_from_local (foldl (verify_track U pl lm) acc ts)) =
     length (artist_mismatches acc) + length (missing_from_local acc) +
     length (filter (\<lambda>t. \<not> matched U lm t) ts)"
  by (induction ts arbitrary: acc)
     (auto simp: verify_track_cases matched_def split: option.splits)

lemma verify_tracks_subseq:
  "subseq (map track (matches (verify_tracks U pl lm))) (tracks pl)"
  by (simp add: verify_tracks_def foldl_verify_track_matches)

lemma verify_tracks_complete:
  assumes "artist_mismatches (verify_tracks U pl lm) = []"
    and "missing_from_local (verify_tracks U pl lm) = []"
  shows "map track (matches (verify_tracks U pl lm)) = tracks pl"
proof -
  have "length (filter (\<lambda>t. \<not> matched U lm t) (tracks pl)) = 0"
    using foldl_verify_track_failures [of U pl lm
            "\<lparr> artist_mismatches = [], missing_from_local = [], matches = [] \<rparr>" "tracks pl"]
          assms
    by (simp add: verify_tracks_def)
  then have "filter (matched U lm) (tracks pl) = tracks pl"
    by (simp add: filter_empty_conv)
  then show ?thesis
    by (simp add: verify_tracks_def foldl_verify_track_matches)
qed

lemma verify_playlist_Inr:
  assumes "verify_playlist U P pl local_files = Inr ms"
  shows "ms = matches (verify_tracks U pl (fst (index_files U P local_files)))"
    and "artist_mismatches (verify_tracks U pl (fst (index_files U P local_files))) = []"
    and "missing_from_local (verify_tracks U pl (fst (index_files U P local_files))) = []"
    and "snd (index_files U P local_files) = []"
    and "tracks pl \<noteq> []"
  using assms
  by (auto simp: verify_playlist_def Let_def match_rate_def split: if_splits)

lemma verify_playlist_tracks:
  assumes "verify_playlist U P pl local_files = Inr ms"
  shows "map track ms = tracks pl"
  using verify_playlist_Inr [OF assms] verify_tracks_complete by metis

lemma wrap_tracks_positions:
  "wrap_tracks i raw = Inr ts \<Longrightarrow> map position ts = map (\<lambda>k. i + int k) [0..<length ts]"
proof (induction raw arbitrary: i ts)
  case Nil
  then show ?case by simp
next
  case (Cons r raw)
  from Cons.prems have "\<exists>t ts'. Track_init i r = Inr t \<and>
      wrap_tracks (i + 1) raw = Inr ts' \<and> ts = t # ts'"
    by (auto split: sum.splits)
  then obtain t ts' where t: "Track_init i r = Inr t"
    and ts': "wrap_tracks (i + 1) raw = Inr ts'" and ts: "ts = t # ts'"
    by blast
  have "position t = i" using t
    by (auto simp: Track_init_def check_null_def split: option.splits)
  moreover have "map position ts' = map (\<lambda>k. i + 1 + int k) [0..<length ts']"
    by (rule Cons.IH [OF ts'])
  moreover have "map (\<lambda>k. i + int k) [Suc 0..<Suc (length ts')] =
      map (\<lambda>k. i + 1 + int k) [0..<length ts']"
    by (simp add: map_Suc_upt [symmetric] del: upt_Suc)
  ultimately show ?case
    by (simp add: ts upt_conv_Cons del: upt_Suc)
qed

lemma Playlist_init_positions:
  assumes "Playlist_init raw = Inr pl"
  shows "map position (tracks pl) = map int [0..<length (tracks pl)]"
proof -
  from assms have "wrap_tracks 0 (raw_tracks raw) = Inr (tracks pl)"
    by (auto simp: Playlist_init_def check_null_def split: option.splits sum.splits)
  then show ?thesis using wrap_tracks_positions [of 0 "raw_tracks raw" "tracks pl"] by simp
qed

lemma foldl_verify_track_files:
  "map local_file (matches (foldl (verify_track U pl lm) acc ts)) =
     map local_file (matches acc) @
     map (\<lambda>t. the (find_matched_file (normalized_artists U t) (lookup_entries U lm t)))
       (filter (matched U lm) ts)"
  by (induction ts arbitrary: acc)
     (auto simp: verify_track_cases matched_def split: option.splits)

lemma verify_tracks_all_matched:
  assumes "artist_mismatches (verify_tracks U pl lm) = []"
    and "missing_from_local (verify_tracks U pl lm) = []"
  shows "filter (matched U lm) (tracks pl) = tracks pl"
proof -
  have "length (filter (\<lambda>t. \<not> matched U lm t) (tracks pl)) = 0"
    using foldl_verify_track_failures [of U pl lm
            "\<lparr> artist_mismatches = [], missing_from_local = [], matches = [] \<rparr>" "tracks pl"]
          assms
    by (simp add: verify_tracks_def)
  then show ?thesis by (simp add: filter_empty_conv)
qed

lemma verify_playlist_files:
  assumes "verify_playlist U P pl local_files = Inr ms"
  shows "map local_file ms =
           map (\<lambda>t. the (first_candidate_of_first_matching_artist (normalized_artists U t)
                            (lookup_entries U (fst (index_files U P local_files)) t)))
             (tracks pl)"
proof -
  let ?lm = "fst (index_files U P local_files)"
  note r = verify_playlist_Inr [OF assms]
  have "filter (matched U ?lm) (tracks pl) = tracks pl"
    by (rule verify_tracks_all_matched [OF r(2) r(3)])
  then show ?thesis
    by (simp add: r(1) verify_tracks_def foldl_verify_track_files find_matched_file_rule)
qed

lemma verify_track_choice:
  assumes "local_map (normalized_name U t) = Some local_entries"
  shows "matches (verify_track U pl local_map acc t) =
           matches acc @
           (case first_candidate_of_first_matching_artist (normalized_artists U t)
                   local_entries of
              None \<Rightarrow> []
            | Some f \<Rightarrow> [\<lparr> track = t, local_file = f,
                            consolidated_album_artist = consolidated_for pl t \<rparr>])"
  using assms
  by (simp add: verify_track_cases lookup_entries_def find_matched_file_rule
           split: option.splits)


lemma verify_playlist_nonempty:
  assumes "tracks pl \<noteq> []"
  shows "verify_playlist U P pl local_files =
           (let parsing_errors = snd (index_files U P local_files);
                v = verify_tracks U pl (fst (index_files U P local_files))
            in if parsing_errors = [] \<and> artist_mismatches v = [] \<and> missing_from_local v = []
               then Inr (matches v)
               else Inl (PlaylistVerificationError parsing_errors (artist_mismatches v)
                           (missing_from_local v)))"
  using assms by (simp add: verify_playlist_def Let_def match_rate_def)









subsection \<open>The sample playlists, evaluated\<close>

lemma raw_playlist_ab_init: "Playlist_init raw_playlist_ab = Inr (sample_playlist [track_ab])"
  by (simp add: Playlist_init_def check_null_def sample_raw_playlist_def sample_playlist_def
        Track_init_def sample_raw_track_def sample_track_def sample_album_def
        raw_playlist_ab_def track_ab_def)


lemma sample_index:
  "fst (index_files unicode_excerpt string_paths sample_files)
     (normalized_name unicode_excerpt track_ab) =
     Some [(ascii ''b'', ascii ''B - S.mp3''), (ascii ''a'', ascii ''A - S.mp3'')]"
  by code_simp

lemma sample_choice:
  "first_candidate_of_first_matching_artist (normalized_artists unicode_excerpt track_ab)
     [(ascii ''b'', ascii ''B - S.mp3''), (ascii ''a'', ascii ''A - S.mp3'')] =
     Some (ascii ''A - S.mp3'')"
  by code_simp

lemma sample_lookup:
  "lookup_entries unicode_excerpt (fst (index_files unicode_excerpt string_paths sample_files))
     track_ab = [(ascii ''b'', ascii ''B - S.mp3''), (ascii ''a'', ascii ''A - S.mp3'')]"
  by (simp add: lookup_entries_def sample_index)

lemma sample_verify_ab:
  "verify_playlist unicode_excerpt string_paths (sample_playlist [track_ab]) sample_files =
     Inr [match_ab]"
  by code_simp

lemma sample_consolidated_ab:
  "consolidated_for (sample_playlist [track_ab]) track_ab = ascii ''A & B''"
  by code_simp





subsection \<open>The claims about reconciliation\<close>

text \<open>
  C1, as the code has it. For a playlist track whose normalized name is in the local file
  index, the loop body adds to the matches the file chosen as follows, and nothing if
  there is none: take the first artist of the track's artist list, in list order, that
  some candidate has; the file is the first candidate, in scan order, with that artist.
  When \<open>verify_playlist\<close> returns, the file of every returned match is the file chosen
  so for its track. The choice depends on the order of the track's artist list.
\<close>

theorem verify_track_first_artist_first_candidate:
  "(local_map (normalized_name U t) = Some local_entries \<longrightarrow>
      matches (verify_track U pl local_map acc t) =
        matches acc @
        (case first_candidate_of_first_matching_artist (normalized_artists U t)
                local_entries of
           None \<Rightarrow> []
         | Some f \<Rightarrow> [\<lparr> track = t, local_file = f,
                         consolidated_album_artist = consolidated_for pl t \<rparr>])) \<and>
   (verify_playlist U P pl local_files = Inr ms \<longrightarrow>
      map local_file ms =
        map (\<lambda>t. the (first_candidate_of_first_matching_artist (normalized_artists U t)
                         (lookup_entries U (fst (index_files U P local_files)) t)))
          (tracks pl))"
  using verify_track_choice [of local_map U t local_entries pl acc]
        verify_playlist_files [of U P pl local_files ms]
  by blast

theorem verify_track_first_artist_first_candidate_witness:
  "fst (index_files unicode_excerpt string_paths sample_files)
     (normalized_name unicode_excerpt track_ab) =
     Some [(ascii ''b'', ascii ''B - S.mp3''), (ascii ''a'', ascii ''A - S.mp3'')] \<and>
   matches (verify_track unicode_excerpt (sample_playlist [track_ab])
              (fst (index_files unicode_excerpt string_paths sample_files))
              \<lparr> artist_mismatches = [], missing_from_local = [], matches = [] \<rparr> track_ab) =
     [match_ab] \<and>
   verify_playlist unicode_excerpt string_paths (sample_playlist [track_ab]) sample_files =
     Inr [match_ab] \<and>
   map local_file [match_ab] = [ascii ''A - S.mp3'']"
proof -
  let ?lm = "fst (index_files unicode_excerpt string_paths sample_files)"
  let ?es = "[(ascii ''b'', ascii ''B - S.mp3''), (ascii ''a'', ascii ''A - S.mp3'')]"
  let ?acc = "\<lparr> artist_mismatches = [], missing_from_local = [], matches = [] \<rparr>
                :: ustr verification"
  note T = verify_track_first_artist_first_candidate [of ?lm unicode_excerpt track_ab ?es
             "sample_playlist [track_ab]" ?acc string_paths sample_files "[match_ab]"]
  have a: "matches (verify_track unicode_excerpt (sample_playlist [track_ab]) ?lm ?acc
             track_ab) =
           matches ?acc @
           (case first_candidate_of_first_matching_artist
                   (normalized_artists unicode_excerpt track_ab) ?es of
              None \<Rightarrow> []
            | Some f \<Rightarrow> [\<lparr> track = track_ab, local_file = f,
                            consolidated_album_artist =
                              consolidated_for (sample_playlist [track_ab]) track_ab \<rparr>])"
    using T sample_index by blast
  have b: "map local_file [match_ab] =
           map (\<lambda>t. the (first_candidate_of_first_matching_artist
                            (normalized_artists unicode_excerpt t)
                            (lookup_entries unicode_excerpt ?lm t)))
             (tracks (sample_playlist [track_ab]))"
    using T sample_verify_ab by blast
  have c: "matches (verify_track unicode_excerpt (sample_playlist [track_ab]) ?lm ?acc
             track_ab) = [match_ab]"
    unfolding a by (simp add: sample_choice sample_consolidated_ab match_ab_def)
  have d: "map local_file [match_ab] = [ascii ''A - S.mp3'']"
    unfolding b by (simp add: sample_playlist_def sample_lookup sample_choice)
  show ?thesis using sample_index c sample_verify_ab d by blast
qed

text \<open>
  The claim C1 as stated fails: with the artists A and B and the local files
  "B - S.mp3", "A - S.mp3" in scan order, the track is matched to "A - S.mp3", though
  "B - S.mp3" is the first candidate whose artist is one of the track's; with the artist
  list in the other order the same track is matched to "B - S.mp3".
\<close>

theorem match_choice_depends_on_artist_order:
  "map_sum id (map local_file)
     (verify_playlist unicode_excerpt string_paths (sample_playlist [track_ab]) sample_files) =
     Inr [ascii ''A - S.mp3''] \<and>
   first_candidate_matching_any_artist (normalized_artists unicode_excerpt track_ab)
     (lookup_entries unicode_excerpt
        (fst (index_files unicode_excerpt string_paths sample_files)) track_ab) =
     Some (ascii ''B - S.mp3'') \<and>
   map_sum id (map local_file)
     (verify_playlist unicode_excerpt string_paths (sample_playlist [track_ba]) sample_files) =
     Inr [ascii ''B - S.mp3'']"
  by code_simp

text \<open>
  C2. The claim holds for every playlist with at least one track
  (\<open>verify_playlist_nonempty\<close>). For a playlist without tracks the code does not reach
  the test of the three lists: the summary it logs first divides by the number of
  tracks. Here all three lists are empty and the call raises \<open>ZeroDivisionError\<close>
  where the claim has it return the empty list of matches.
\<close>

theorem verify_playlist_empty_playlist_divides_by_zero:
  "verify_playlist unicode_excerpt string_paths (sample_playlist []) [ascii ''A - S.mp3''] =
     Inl ZeroDivisionError \<and>
   snd (index_files unicode_excerpt string_paths [ascii ''A - S.mp3'']) = [] \<and>
   artist_mismatches (verify_tracks unicode_excerpt (sample_playlist [])
      (fst (index_files unicode_excerpt string_paths [ascii ''A - S.mp3'']))) = [] \<and>
   missing_from_local (verify_tracks unicode_excerpt (sample_playlist [])
      (fst (index_files unicode_excerpt string_paths [ascii ''A - S.mp3'']))) = []"
  by code_simp




text \<open>
  C9. When \<open>verify_playlist\<close> returns, the list has one match per playlist track, in
  playlist order: it is as long as the track list, and the tracks of the matches are the
  playlist's tracks, place by place. In a playlist built by the constructor the match at
  place \<open>i\<close> has the track of position \<open>i\<close>.
\<close>

theorem verify_playlist_one_match_per_track:
  assumes "verify_playlist U P pl local_files = Inr ms"
  shows "length ms = length (tracks pl) \<and>
         map track ms = tracks pl \<and>
         (\<forall>i < length ms. track (ms ! i) = tracks pl ! i) \<and>
         (Playlist_init raw = Inr pl \<longrightarrow>
            map (\<lambda>m. position (track m)) ms = map int [0..<length ms])"
proof -
  have eq: "map track ms = tracks pl"
    by (rule verify_playlist_tracks [OF assms])
  then have len: "length ms = length (tracks pl)"
    by (metis length_map)
  have nth: "\<forall>i < length ms. track (ms ! i) = tracks pl ! i"
    using eq by (metis nth_map)
  have pos: "map (\<lambda>m. position (track m)) ms = map int [0..<length ms]"
    if "Playlist_init raw = Inr pl"
  proof -
    have "map (\<lambda>m. position (track m)) ms = map position (map track ms)" by simp
    then show ?thesis
      using Playlist_init_positions [OF that] by (simp only: eq len)
  qed
  show ?thesis using eq len nth pos by blast
qed

theorem verify_playlist_one_match_per_track_witness:
  "verify_playlist unicode_excerpt string_paths (sample_playlist [track_ab]) sample_files =
     Inr [match_ab] \<and>
   Playlist_init raw_playlist_ab = Inr (sample_playlist [track_ab]) \<and>
   length [match_ab] = length (tracks (sample_playlist [track_ab])) \<and>
   map track [match_ab] = tracks (sample_playlist [track_ab]) \<and>
   map (\<lambda>m. position (track m)) [match_ab] = map int [0..<length [match_ab]]"
  using verify_playlist_one_match_per_track [OF sample_verify_ab, of raw_playlist_ab]
        sample_verify_ab raw_playlist_ab_init
  by blast

section \<open>The consolidated album artist\<close>

lemma counter_incr_keys:
  "fst ` set (counter_incr c a) = insert a (fst ` set c)"
  by (induction c a rule: counter_incr.induct) auto

lemma counter_incr_distinct:
  "distinct (map fst c) \<Longrightarrow> distinct (map fst (counter_incr c a))"
  by (induction c a rule: counter_incr.induct) (auto simp: counter_incr_keys)

lemma counter_incr_entries:
  "distinct (map fst c) \<Longrightarrow>
   set (counter_incr c a) =
     (if a \<in> fst ` set c then (\<lambda>kv. if fst kv = a then (a, snd kv + 1) else kv) ` set c
      else insert (a, 1) (set c))"
  by (induction c a rule: counter_incr.induct) (auto simp: image_iff)

lemma counts_of_step:
  assumes "counts_of xs c"
  shows "counts_of (xs @ [a]) (counter_incr c a)"
proof -
  from assms have d: "distinct (map fst c)" and k: "fst ` set c = set xs"
    and n: "\<forall>kv \<in> set c. snd kv = count_list xs (fst kv)"
    by (simp_all add: counts_of_def)
  have "\<forall>kv \<in> set (counter_incr c a). snd kv = count_list (xs @ [a]) (fst kv)"
  proof (cases "a \<in> fst ` set c")
    case True
    then show ?thesis using n by (auto simp: counter_incr_entries [OF d])
  next
    case False
    then have "count_list xs a = 0" using k by (simp add: count_list_0_iff)
    with False show ?thesis using n by (auto simp: counter_incr_entries [OF d])
  qed
  then show ?thesis
    using counter_incr_distinct [OF d] k by (auto simp: counts_of_def counter_incr_keys)
qed

lemma counts_of_foldl: "counts_of xs (foldl counter_incr [] xs)"
proof (induction xs rule: rev_induct)
  case Nil
  then show ?case by (simp add: counts_of_def)
next
  case (snoc x xs)
  then show ?case by (simp add: counts_of_step)
qed

lemma most_common_set: "set (most_common c) = set c"
  by (simp add: most_common_def)

lemma most_common_distinct: "distinct (map fst c) \<Longrightarrow> distinct (map fst (most_common c))"
  by (simp add: most_common_def distinct_map)

lemma most_common_hd:
  assumes "c \<noteq> []"
  shows "hd (most_common c) \<in> set c" and "\<forall>kv \<in> set c. snd kv \<le> snd (hd (most_common c))"
proof -
  let ?f = "\<lambda>kv :: ustr \<times> nat. - int (snd kv)"
  from assms have ne: "most_common c \<noteq> []"
    by (metis most_common_set set_empty)
  then obtain x xs where mc: "most_common c = x # xs" by (cases "most_common c") auto
  show "hd (most_common c) \<in> set c"
    using ne most_common_set [of c] by (metis hd_in_set)
  have "sorted (map ?f (most_common c))" by (simp add: most_common_def)
  then have "\<forall>y \<in> set xs. ?f x \<le> ?f y" by (simp add: mc)
  then have "\<forall>y \<in> set (x # xs). snd y \<le> snd x" by auto
  moreover have "set c = set (x # xs)" using most_common_set [of c] by (simp only: mc)
  ultimately show "\<forall>kv \<in> set c. snd kv \<le> snd (hd (most_common c))"
    by (simp add: mc)
qed

lemma top_artists_distinct: "distinct (top_artists trks)"
proof -
  have "distinct (map fst (most_common (foldl counter_incr [] (concat (map artists trks)))))"
    using counts_of_foldl [of "concat (map artists trks)"]
    by (simp add: counts_of_def most_common_distinct)
  then show ?thesis by (simp add: top_artists_def Let_def distinct_map_filter)
qed

lemma top_artists_set:
  assumes "concat (map artists trks) \<noteq> []"
  shows "set (top_artists trks) = most_frequent trks"
proof -
  let ?xs = "concat (map artists trks)"
  let ?c = "foldl counter_incr [] ?xs"
  have co: "counts_of ?xs ?c" by (rule counts_of_foldl)
  then have k: "fst ` set ?c = set ?xs"
    and n: "\<forall>kv \<in> set ?c. snd kv = count_list ?xs (fst kv)"
    by (simp_all add: counts_of_def)
  from assms k have ne: "?c \<noteq> []" by auto
  note h = most_common_hd [OF ne]
  let ?m = "snd (hd (most_common ?c))"
  have top: "set (top_artists trks) = {a. (a, ?m) \<in> set ?c}"
    by (auto simp: top_artists_def Let_def most_common_set image_iff)
  have m_max: "\<forall>b \<in> set ?xs. count_list ?xs b \<le> ?m"
  proof
    fix b assume "b \<in> set ?xs"
    then obtain kv where "kv \<in> set ?c" "fst kv = b" using k by (metis imageE)
    then show "count_list ?xs b \<le> ?m" using h(2) n by metis
  qed
  have m_att: "?m = count_list ?xs (fst (hd (most_common ?c)))" "fst (hd (most_common ?c)) \<in> set ?xs"
    using h(1) n k by (metis, metis imageI)
  show ?thesis
  proof (intro set_eqI iffI)
    fix a assume "a \<in> set (top_artists trks)"
    then have "(a, ?m) \<in> set ?c" by (simp add: top)
    then have "a \<in> set ?xs" "count_list ?xs a = ?m"
      using k n by (metis fst_conv imageI, metis fst_conv snd_conv)
    then show "a \<in> most_frequent trks"
      using m_max by (simp add: most_frequent_def occurrences_def)
  next
    fix a assume "a \<in> most_frequent trks"
    then have a: "a \<in> set ?xs" and ge: "\<forall>b \<in> set ?xs. count_list ?xs b \<le> count_list ?xs a"
      by (simp_all add: most_frequent_def occurrences_def)
    from a obtain kv where kv: "kv \<in> set ?c" "fst kv = a" using k by (metis imageE)
    then have "snd kv = count_list ?xs a" using n by metis
    moreover have "count_list ?xs a = ?m"
      using ge m_att m_max a by (metis le_antisym)
    ultimately have "(a, ?m) \<in> set ?c" using kv by (metis prod.collapse)
    then show "a \<in> set (top_artists trks)" by (simp add: top)
  qed
qed

lemma get_consolidated_album_artist_top:
  assumes "concat (map artists trks) \<noteq> []"
  shows "get_consolidated_album_artist trks =
           (if length (top_artists trks) = 1 then hd (top_artists trks)
            else if length (top_artists trks) > 2 then ascii ''Various Artists''
            else join (ascii '' & '') (sort (top_artists trks)))"
proof -
  have "counts_of (concat (map artists trks)) (foldl counter_incr [] (concat (map artists trks)))"
    by (rule counts_of_foldl)
  with assms have "foldl counter_incr [] (concat (map artists trks)) \<noteq> []"
    by (auto simp: counts_of_def)
  moreover from assms have "trks \<noteq> []" by auto
  ultimately show ?thesis
    by (simp add: get_consolidated_album_artist_def top_artists_def Let_def)
qed

lemma most_frequent_nonempty:
  assumes "a \<in> most_frequent trks"
  shows "concat (map artists trks) \<noteq> []"
proof -
  from assms have "a \<in> set (concat (map artists trks))" by (simp add: most_frequent_def)
  then show ?thesis by (metis empty_iff empty_set)
qed

lemma top_artists_length:
  assumes "concat (map artists trks) \<noteq> []"
  shows "length (top_artists trks) = card (most_frequent trks)"
  using distinct_card [OF top_artists_distinct, of trks] top_artists_set [OF assms] by simp

lemma consolidated_unique:
  assumes "most_frequent trks = {a}"
  shows "get_consolidated_album_artist trks = a"
proof -
  have ne: "concat (map artists trks) \<noteq> []"
    by (rule most_frequent_nonempty [of a]) (simp add: assms)
  have len: "length (top_artists trks) = 1"
    by (simp add: top_artists_length [OF ne] assms)
  then have "top_artists trks \<noteq> []" by auto
  then have "hd (top_artists trks) \<in> set (top_artists trks)" by (rule hd_in_set)
  then have "hd (top_artists trks) = a" by (simp add: top_artists_set [OF ne] assms)
  then show ?thesis by (simp add: get_consolidated_album_artist_top [OF ne] len)
qed

lemma consolidated_pair:
  assumes "most_frequent trks = {a, b}" and "a < b"
  shows "get_consolidated_album_artist trks = a @ ascii '' & '' @ b"
proof -
  have ne: "concat (map artists trks) \<noteq> []"
    by (rule most_frequent_nonempty [of a]) (simp add: assms)
  from assms(2) have ab: "a \<noteq> b" by simp
  have len: "length (top_artists trks) = 2"
    using ab by (simp add: top_artists_length [OF ne] assms(1))
  then obtain x y where xy: "top_artists trks = [x, y]"
    by (auto simp: length_Suc_conv numeral_2_eq_2)
  have "{x, y} = {a, b}" using top_artists_set [OF ne] assms(1) by (simp add: xy)
  then have "(x = a \<and> y = b) \<or> (x = b \<and> y = a)" by (auto simp: doubleton_eq_iff)
  then have "sort (top_artists trks) = [a, b]"
    using assms(2) by (auto simp: xy)
  then show ?thesis by (simp add: get_consolidated_album_artist_top [OF ne] len)
qed

lemma consolidated_various:
  assumes "3 \<le> card (most_frequent trks)"
  shows "get_consolidated_album_artist trks = ascii ''Various Artists''"
proof -
  from assms have "most_frequent trks \<noteq> {}" by auto
  then obtain a where "a \<in> most_frequent trks" by blast
  then have ne: "concat (map artists trks) \<noteq> []" by (rule most_frequent_nonempty)
  have "3 \<le> length (top_artists trks)"
    using assms by (simp only: top_artists_length [OF ne])
  then have "length (top_artists trks) \<noteq> 1" and "length (top_artists trks) > 2"
    by linarith+
  then show ?thesis
    by (simp only: get_consolidated_album_artist_top [OF ne] if_False if_True)
qed

lemma consolidated_fallback:
  assumes "trks \<noteq> []" and "list_all (\<lambda>t. artists t = []) trks"
  shows "get_consolidated_album_artist trks = artist_name (album_artist (hd trks))"
proof -
  from assms(2) have e: "concat (map artists trks) = []"
    by (simp add: list_all_iff)
  have "foldl counter_incr [] (concat (map artists trks)) = []"
    by (simp only: e foldl_Nil)
  then show ?thesis
    unfolding get_consolidated_album_artist_def Let_def using assms(1)
    by (simp only: if_True if_False simp_thms)
qed

lemma consolidated_empty: "get_consolidated_album_artist [] = ascii ''Unknown Artist''"
  unfolding get_consolidated_album_artist_def by (simp only: if_True simp_thms)

lemma most_frequent_xyz: "most_frequent album_tracks_xyz = {ascii ''X''}"
  by code_simp

lemma most_frequent_ba: "most_frequent [track_ba] = {ascii ''A'', ascii ''B''}"
  by code_simp

lemma most_frequent_abc: "3 \<le> card (most_frequent [sample_track 0 ''S'' [''A'', ''B'', ''C'']])"
  by code_simp

lemma ascii_A_less_B: "ascii ''A'' < ascii ''B''"
  by code_simp

lemma sample_no_artists: "list_all (\<lambda>t. artists t = []) [sample_track 0 ''S'' []]"
  by code_simp

text \<open>
  C5. The consolidator returns "Unknown Artist" for an empty track list; the first
  track's raw album artist when the list is not empty and every track's artist list is;
  the artist with the highest number of occurrences when one artist alone attains it;
  the two artists joined by " & ", the smaller in the order of strings first, when
  exactly two attain it; and "Various Artists" when three or more do.
\<close>

theorem consolidated_album_artist_cases:
  "get_consolidated_album_artist [] = ascii ''Unknown Artist'' \<and>
   (trks \<noteq> [] \<and> list_all (\<lambda>t. artists t = []) trks \<longrightarrow>
      get_consolidated_album_artist trks = artist_name (album_artist (hd trks))) \<and>
   (most_frequent trks = {a} \<longrightarrow> get_consolidated_album_artist trks = a) \<and>
   (most_frequent trks = {a, b} \<and> a < b \<longrightarrow>
      get_consolidated_album_artist trks = a @ ascii '' & '' @ b) \<and>
   (3 \<le> card (most_frequent trks) \<longrightarrow>
      get_consolidated_album_artist trks = ascii ''Various Artists'')"
  using consolidated_empty consolidated_fallback [of trks] consolidated_unique [of trks a]
        consolidated_pair [of trks a b] consolidated_various [of trks]
  by blast

theorem consolidated_album_artist_cases_witness:
  "list_all (\<lambda>t. artists t = []) [sample_track 0 ''S'' []] \<and>
   get_consolidated_album_artist [sample_track 0 ''S'' []] = ascii ''X'' \<and>
   most_frequent album_tracks_xyz = {ascii ''X''} \<and>
   get_consolidated_album_artist album_tracks_xyz = ascii ''X'' \<and>
   most_frequent [track_ba] = {ascii ''A'', ascii ''B''} \<and>
   ascii ''A'' < ascii ''B'' \<and>
   get_consolidated_album_artist [track_ba] = ascii ''A'' @ ascii '' & '' @ ascii ''B'' \<and>
   3 \<le> card (most_frequent [sample_track 0 ''S'' [''A'', ''B'', ''C'']]) \<and>
   get_consolidated_album_artist [sample_track 0 ''S'' [''A'', ''B'', ''C'']] =
     ascii ''Various Artists''"
proof -
  have f: "get_consolidated_album_artist [sample_track 0 ''S'' []] =
           artist_name (album_artist (hd [sample_track 0 ''S'' []]))"
    using consolidated_album_artist_cases [of "[sample_track 0 ''S'' []]"] sample_no_artists by blast
  have f': "artist_name (album_artist (hd [sample_track 0 ''S'' []])) = ascii ''X''"
    by (simp add: sample_track_def)
  have u: "get_consolidated_album_artist album_tracks_xyz = ascii ''X''"
    using consolidated_album_artist_cases [of album_tracks_xyz "ascii ''X''"] most_frequent_xyz by blast
  have p: "get_consolidated_album_artist [track_ba] = ascii ''A'' @ ascii '' & '' @ ascii ''B''"
    using consolidated_album_artist_cases [of "[track_ba]" "ascii ''A''" "ascii ''B''"] most_frequent_ba ascii_A_less_B
    by blast
  have v: "get_consolidated_album_artist [sample_track 0 ''S'' [''A'', ''B'', ''C'']] =
           ascii ''Various Artists''"
    using consolidated_album_artist_cases [of "[sample_track 0 ''S'' [''A'', ''B'', ''C'']]"] most_frequent_abc
    by blast
  show ?thesis using sample_no_artists f f' most_frequent_xyz u most_frequent_ba ascii_A_less_B p most_frequent_abc v by (simp only: simp_thms)
qed

section \<open>The file name parser\<close>

lemma ascii_sep: "ascii '' - '' = [32, 45, 32]"
  by (simp add: ascii_def)

lemma ascii_mp3: "ascii ''.mp3'' = [46, 109, 112, 51]"
  by (simp add: ascii_def)

lemma ascii_space_dash: "ascii '' -'' = [32, 45]"
  by (simp add: ascii_def)

lemma strip_number_prefix_none:
  assumes "\<not> has_number_prefix U s"
  shows "strip_number_prefix U s = s"
proof -
  define r where "r = dropWhile isspace (dropWhile (isdecimal U) s)"
  have h: "\<not> (takeWhile (isdecimal U) s \<noteq> [] \<and>
               (case r of [] \<Rightarrow> False | c # _ \<Rightarrow> c = 46 \<or> c = 45))"
    using assms unfolding has_number_prefix_def r_def .
  have "strip_number_prefix U s =
          (if takeWhile (isdecimal U) s = [] then s
           else case r of
                  [] \<Rightarrow> s
                | c # rest \<Rightarrow> if c = 46 \<or> c = 45 then dropWhile isspace rest else s)"
    unfolding strip_number_prefix_def r_def ..
  then show ?thesis using h by (cases r) auto
qed

lemma splitext_mp3:
  assumes "47 \<notin> set stem" and "list_ex (\<lambda>c. c \<noteq> 46) stem"
  shows "splitext (stem @ [46, 109, 112, 51]) = (stem, [46, 109, 112, 51])"
proof -
  let ?p = "stem @ [46, 109, 112, 51]"
  have "\<forall>c \<in> set (rev ?p). c \<noteq> 47" using assms(1) by auto
  then have "takeWhile (\<lambda>c. c \<noteq> 47) (rev ?p) = rev ?p"
    by (rule takeWhile_eq_all_conv [THEN iffD2])
  then have base: "rev (takeWhile (\<lambda>c. c \<noteq> 47) (rev ?p)) = ?p"
    by (simp only: rev_rev_ident)
  have ext: "rev (takeWhile (\<lambda>c. c \<noteq> 46) (rev ?p)) = [109, 112, 51]" by simp
  show ?thesis
    unfolding splitext_def base Let_def ext using assms(2) by simp
qed

lemma find_sub_separator:
  assumes "\<not> sublist [32, 45, 32] xs" and "\<not> suffix [32, 45] xs"
  shows "find_sub [32, 45, 32] (xs @ [32, 45, 32] @ ys) = Some (length xs)"
  using assms
proof (induction xs)
  case Nil
  then show ?case by simp
next
  case (Cons a as)
  have tl1: "\<not> sublist [32, 45, 32] as"
    using Cons.prems(1) by (meson sublist_Cons_right)
  have tl2: "\<not> suffix [32, 45] as"
    using Cons.prems(2) by (meson suffix_ConsI)
  have np: "\<not> prefix [32, 45, 32] (a # as @ [32, 45, 32] @ ys)"
  proof
    assume p: "prefix [32, 45, 32] (a # as @ [32, 45, 32] @ ys)"
    show False
    proof (cases as)
      case Nil
      with p show False by simp
    next
      case (Cons x xs')
      note c1 = Cons
      show False
      proof (cases xs')
        case Nil
        with p c1 have "a # as = [32, 45]" by simp
        with Cons.prems(2) show False by simp
      next
        case (Cons y zs)
        with p c1 have "a # as = [32, 45, 32] @ zs" by simp
        then have "sublist [32, 45, 32] (a # as)"
          by (metis sublist_appendI append_Nil)
        with Cons.prems(1) show False by simp
      qed
    qed
  qed
  show ?case using np Cons.IH [OF tl1 tl2] by simp
qed

lemma split_once_separator:
  assumes "\<not> sublist [32, 45, 32] xs" and "\<not> suffix [32, 45] xs"
  shows "split_once [32, 45, 32] (xs @ [32, 45, 32] @ ys) = [xs, ys]"
  unfolding split_once_def find_sub_separator [OF assms] by simp

lemma extract_round_trip:
  assumes "\<not> sublist (ascii '' - '') artist"
    and "\<not> suffix (ascii '' -'') artist"
    and "47 \<notin> set artist" and "47 \<notin> set title"
    and "\<not> has_number_prefix U (file_name artist title)"
    and "normalize_name U artist \<noteq> []" and "normalize_name U title \<noteq> []"
    and "path_name P filepath = file_name artist title"
  shows "extract_artist_and_track U P filepath =
           Inr (normalize_name U artist, normalize_name U title)"
proof -
  let ?stem = "artist @ [32, 45, 32] @ title"
  have n: "file_name artist title = ?stem @ [46, 109, 112, 51]"
    by (simp add: file_name_def ascii_sep ascii_mp3)
  have s1: "strip_number_prefix U (file_name artist title) = file_name artist title"
    by (rule strip_number_prefix_none [OF assms(5)])
  have s2: "splitext (file_name artist title) = (?stem, [46, 109, 112, 51])"
    unfolding n using assms(3,4) by (intro splitext_mp3) auto
  have s3: "split_once (ascii '' - '') ?stem = [artist, title]"
    unfolding ascii_sep
    using assms(1,2) by (intro split_once_separator) (simp_all add: ascii_sep ascii_space_dash)
  show ?thesis
    unfolding extract_artist_and_track_def Let_def assms(8) s1 s2 fst_conv s3
    using assms(6,7) by simp
qed

lemma sample_file_name_facts:
  "\<not> sublist (ascii '' - '') (ascii ''X'')"
  "\<not> suffix (ascii '' -'') (ascii ''X'')"
  "47 \<notin> set (ascii ''X'')"
  "47 \<notin> set (ascii ''Song A'')"
  "\<not> has_number_prefix unicode_excerpt (file_name (ascii ''X'') (ascii ''Song A''))"
  "path_name string_paths (ascii ''X - Song A.mp3'') = file_name (ascii ''X'') (ascii ''Song A'')"
  by code_simp+

lemma sample_normalized:
  "normalize_name unicode_excerpt (ascii ''X'') = ascii ''x''"
  "normalize_name unicode_excerpt (ascii ''Song A'') = ascii ''song a''"
  "ascii ''x'' \<noteq> []"
  "ascii ''song a'' \<noteq> []"
  by code_simp+

text \<open>
  C4, as the code has it. Let the artist contain no " - " and not end in " -", let
  neither the artist nor the track contain the path separator, let the file name
  "artist - track.mp3" not begin with a numeric prefix (decimal digits, any white space,
  then "." or "-"), and let both strings be non-empty after normalization. Then parsing a
  path with that file name succeeds and returns the normalized artist and the normalized
  track. (Only the first " - " splits, so the track needs no condition on " - ".)
\<close>

theorem parse_file_name_round_trip:
  assumes "\<not> sublist (ascii '' - '') artist"
    and "\<not> suffix (ascii '' -'') artist"
    and "47 \<notin> set artist" and "47 \<notin> set title"
    and "\<not> has_number_prefix U (file_name artist title)"
    and "normalize_name U artist \<noteq> []" and "normalize_name U title \<noteq> []"
    and "path_name P filepath = file_name artist title"
  shows "extract_artist_and_track U P filepath =
           Inr (normalize_name U artist, normalize_name U title)"
  by (rule extract_round_trip [OF assms])

theorem parse_file_name_round_trip_witness:
  "path_name string_paths (ascii ''X - Song A.mp3'') =
     file_name (ascii ''X'') (ascii ''Song A'') \<and>
   extract_artist_and_track unicode_excerpt string_paths (ascii ''X - Song A.mp3'') =
     Inr (ascii ''x'', ascii ''song a'')"
proof -
  have n: "normalize_name unicode_excerpt (ascii ''X'') \<noteq> []"
    "normalize_name unicode_excerpt (ascii ''Song A'') \<noteq> []"
    by (simp_all only: sample_normalized simp_thms)
  have "extract_artist_and_track unicode_excerpt string_paths (ascii ''X - Song A.mp3'') =
          Inr (normalize_name unicode_excerpt (ascii ''X''),
               normalize_name unicode_excerpt (ascii ''Song A''))"
    by (rule parse_file_name_round_trip [OF sample_file_name_facts(1-5) n
              sample_file_name_facts(6)])
  then show ?thesis
    by (simp only: sample_normalized sample_file_name_facts(6) simp_thms)
qed

text \<open>
  The claim C4 as stated fails in three ways, each with premises that hold. The artist
  "311" with the track "Down": the file name "311 - Down.mp3" begins with a numeric
  prefix, which is stripped, and what is left has no separator. The artist "a -" with the
  track "b": the first " - " of "a - - b" starts inside the artist. The artist "a" with
  the track "x/": the path "a - x/.mp3" has the file name ".mp3".
\<close>

theorem parse_file_name_round_trip_counterexample:
  "round_trip_premises unicode_excerpt (ascii ''311'') (ascii ''Down'') \<and>
   extract_artist_and_track unicode_excerpt string_paths
     (file_name (ascii ''311'') (ascii ''Down'')) =
     Inl (FileParsingError (ascii ''311 - Down.mp3'') ExpectedArtistTrackFormat) \<and>
   round_trip_premises unicode_excerpt (ascii ''a -'') (ascii ''b'') \<and>
   normalize_name unicode_excerpt (ascii ''a -'') = ascii ''a -'' \<and>
   extract_artist_and_track unicode_excerpt string_paths
     (file_name (ascii ''a -'') (ascii ''b'')) = Inr (ascii ''a'', ascii ''- b'') \<and>
   round_trip_premises unicode_excerpt (ascii ''a'') (ascii ''x/'') \<and>
   extract_artist_and_track unicode_excerpt string_paths
     (file_name (ascii ''a'') (ascii ''x/'')) =
     Inl (FileParsingError (ascii ''a - x/.mp3'') ExpectedArtistTrackFormat)"
  by code_simp

section \<open>The name normalizer\<close>

text \<open>
  C6. The claim fails at the trade mark sign U+2122: \<open>str.lower\<close> leaves it as it is,
  NFKD decomposes it to the capital letters "TM", and nothing lowers them afterwards.
  So the normalized name is "TM", which is not in lower case, and normalizing it again
  gives "tm".
\<close>

theorem normalize_name_trade_mark_not_idempotent:
  "normalize_name unicode_excerpt [8482] = ascii ''TM'' \<and>
   normalize_name unicode_excerpt (normalize_name unicode_excerpt [8482]) = ascii ''tm''"
  by code_simp

end
